theory Spec2Isabelle
  imports Complex_Main
begin

section \<open>Data model of worker/pool.go\<close>

text \<open>
  The error values declared at the top of the file, followed by the two errors of the
  queue package that \<open>Offer\<close> can hand back. A Go \<open>error\<close> result is an
  \<open>error option\<close>: \<open>None\<close> is \<open>nil\<close>.
\<close>

datatype error =
    ErrWorkerPoolIsEmpty
  | ErrWorkerPoolIsFull
  | ErrWorkerPoolIsClosed
  | ErrWorkerPoolScheduleTimeout
  | ErrQueueIsFull
  | ErrQueueIsClosed

text \<open>
  \<open>time.Duration\<close> counts nanoseconds; \<open>time.Time\<close> is a reading of an abstract clock.
  Go's \<open>int\<close> is modelled by \<open>int\<close>: the only arithmetic on it is the division of the
  scaling policy (bounded by its operands, see \<open>expectedWorkerCount_bounds\<close>) and the
  increments and decrements of the worker count, one per goroutine.
\<close>

type_synonym duration = int
type_synonym time = nat

definition Millisecond :: duration where
  "Millisecond = 1000000"

text \<open>
  A task is a \<open>func()\<close>. What the pool can observe of running one is whether it
  returns or panics, and with which value; the number tells tasks apart. A \<open>func()\<close>
  may be \<open>nil\<close>, so the values that travel through the queue are \<open>job option\<close>.
\<close>

type_synonym panic_value = nat

datatype outcome = Returns | Panics panic_value

datatype job = Job nat outcome

text \<open>The panic handler is a nullable \<open>func(interface{})\<close>.\<close>

datatype handler = defaultPanicHandler | CustomHandler nat

text \<open>What the goroutines do to the outside world, in order.\<close>

datatype effect = Executed job | HandlerCalled handler panic_value

datatype worker_state = Active | Retired

subsection \<open>The queues of the fpgo package\<close>

text \<open>
  Modelled from the spec: \<open>fpgo.BufferedChannelQueue[func()]\<close>, the type of
  \<open>jobQueue\<close>, is declared in the root package and is not part of this file. The
  Task Queue is a bounded mailbox of work items that can be closed.
\<close>

record taskQueue =
  tqItems :: "job option list"
  tqCapacity :: nat
  tqClosed :: bool

text \<open>
  Modelled from the spec: the constructor of the Task Queue is missing; a new queue of
  the given capacity is empty and open.
\<close>

definition NewBufferedChannelQueue :: "nat \<Rightarrow> taskQueue" where
  "NewBufferedChannelQueue n = \<lparr>tqItems = [], tqCapacity = n, tqClosed = False\<rparr>"

text \<open>
  Modelled from the spec: \<open>jobQueue.Offer\<close> is missing. It is the non-blocking offer
  \<open>offer(task) -> ok | Full | Closed\<close>, which fails when the queue is closed or full
  and enqueues at the back otherwise.
\<close>

definition tqOffer :: "job option \<Rightarrow> taskQueue \<Rightarrow> error option \<times> taskQueue" where
  "tqOffer fn q =
     (if tqClosed q then (Some ErrQueueIsClosed, q)
      else if tqCapacity q \<le> length (tqItems q) then (Some ErrQueueIsFull, q)
      else (None, q\<lparr>tqItems := tqItems q @ [fn]\<rparr>))"

text \<open>Modelled from the spec: \<open>jobQueue.Count\<close> is missing; it is the current depth.\<close>

definition tqCount :: "taskQueue \<Rightarrow> int" where
  "tqCount q = int (length (tqItems q))"

text \<open>
  Modelled from the spec: \<open>jobQueue.Close\<close> is missing; after it every offer fails.
\<close>

definition tqClose :: "taskQueue \<Rightarrow> taskQueue" where
  "tqClose q = q\<lparr>tqClosed := True\<rparr>"

text \<open>
  Modelled from the spec: \<open>jobQueue.GetChannel\<close> is missing. Receiving from the
  queue's channel gives the oldest item if there is one, \<open>nil\<close> at once from a closed
  and drained queue, and \<open>None\<close> (the receive blocks) otherwise.
\<close>

definition tqReceive :: "taskQueue \<Rightarrow> (job option \<times> taskQueue) option" where
  "tqReceive q =
     (case tqItems q of
        x # xs \<Rightarrow> Some (x, q\<lparr>tqItems := xs\<rparr>)
      | [] \<Rightarrow> if tqClosed q then Some (None, q) else None)"

text \<open>
  Modelled from the spec: \<open>fpgo.ChannelQueue[int]\<close>, the type of \<open>spawnWorkerCh\<close>, is
  declared in the root package and is not part of this file. It is the spawn-signal
  mailbox: a buffer of pending signals with a capacity.
\<close>

record 'a channelQueue =
  chBuf :: "'a list"
  chCap :: nat

text \<open>
  Modelled from the spec: \<open>fpgo.NewChannelQueue\<close> is missing; a new mailbox of the
  given capacity is empty.
\<close>

definition NewChannelQueue :: "nat \<Rightarrow> 'a channelQueue" where
  "NewChannelQueue n = \<lparr>chBuf = [], chCap = n\<rparr>"

text \<open>
  Modelled from the spec: \<open>spawnWorkerCh.Offer\<close> is missing. It is the non-blocking,
  coalescing send: with room in the buffer the signal is stored, without room it is
  dropped and the caller is not held up.
\<close>

definition chOffer :: "'a \<Rightarrow> 'a channelQueue \<Rightarrow> error option \<times> 'a channelQueue" where
  "chOffer v c =
     (if length (chBuf c) < chCap c then (None, c\<lparr>chBuf := chBuf c @ [v]\<rparr>)
      else (Some ErrQueueIsFull, c))"

subsection \<open>The pool\<close>

text \<open>
  The fields of \<open>DefaultWorkerPool\<close> in the order of the struct. The mutex is the
  atomicity of the functions below; \<open>jobQueue\<close> is held by value and taken to be
  non-nil; \<open>isClosed\<close>, an \<open>fpgo.AtomBool\<close>, is a boolean whose zero value is
  \<open>False\<close>. Four more fields stand for what lies outside the struct: the goroutines
  launched by \<open>generateWorker\<close>, one entry each, whether the goroutine of \<open>spawnLoop\<close>
  still runs, the effects so far, and the clock that \<open>time.Now()\<close> reads.
\<close>

record DefaultWorkerPool =
  isClosed :: bool
  jobQueue :: taskQueue
  workerCount :: int
  spawnWorkerCh :: "int channelQueue"
  lastAccessTime :: time
  isJobQueueClosedWhenClose :: bool
  workerBatchSize :: int
  workerSizeStandBy :: int
  workerSizeMaximum :: int
  spawnWorkerDuration :: duration
  workerExpiryDuration :: duration
  panicHandler :: "handler option"
  workers :: "worker_state list"
  spawnLoopRunning :: bool
  effects :: "effect list"
  clock :: time

definition NewDefaultWorkerPool :: "taskQueue \<Rightarrow> DefaultWorkerPool" where
  "NewDefaultWorkerPool q =
     \<lparr>isClosed = False,
      jobQueue = q,
      workerCount = 0,
      spawnWorkerCh = NewChannelQueue 1,
      lastAccessTime = 0,
      isJobQueueClosedWhenClose = True,
      workerBatchSize = 5,
      workerSizeStandBy = 5,
      workerSizeMaximum = 1000,
      spawnWorkerDuration = 100 * Millisecond,
      workerExpiryDuration = 5000 * Millisecond,
      panicHandler = Some defaultPanicHandler,
      workers = [],
      spawnLoopRunning = True,
      effects = [],
      clock = 0\<rparr>"

section \<open>The scaling policy and the spawn controller\<close>

text \<open>Go's \<open>/\<close> and \<open>%\<close> on integers truncate towards zero.\<close>

definition goDiv :: "int \<Rightarrow> int \<Rightarrow> int" where
  "goDiv a b = sgn a * sgn b * (\<bar>a\<bar> div \<bar>b\<bar>)"

definition goMod :: "int \<Rightarrow> int \<Rightarrow> int" where
  "goMod a b = a - b * goDiv a b"

text \<open>
  The read-locked section of \<open>trySpawn\<close>, as a function of the queue count, the batch
  size, the standby size and the maximum.
\<close>

definition expectedWorkerCount :: "int \<Rightarrow> int \<Rightarrow> int \<Rightarrow> int \<Rightarrow> int" where
  "expectedWorkerCount count workerBatchSize' workerSizeStandBy' workerSizeMaximum' =
     (let batchSize = workerBatchSize';
          batchSize = (if batchSize < 1 then 1 else batchSize);
          expected = goDiv count batchSize;
          expected = (if goMod count batchSize > 0 then expected + 1 else expected);
          expected = (if workerSizeStandBy' > expected then workerSizeStandBy' else expected);
          expected = (if workerSizeMaximum' > 0 \<and> expected > workerSizeMaximum'
                      then workerSizeMaximum' else expected)
      in expected)"

text \<open>
  \<open>generateWorker\<close>: stamp the pool, count the worker, launch its goroutine.
\<close>

definition generateWorker :: "DefaultWorkerPool \<Rightarrow> DefaultWorkerPool" where
  "generateWorker p =
     p\<lparr>lastAccessTime := clock p,
       workerCount := workerCount p + 1,
       workers := workers p @ [Active]\<rparr>"

text \<open>
  The loop \<open>for i := workerCount; i < bound; i++ { generateWorker() }\<close> that
  \<open>trySpawn\<close> and \<open>PreAllocWorkerSize\<close> share.
\<close>

function generateWorkers :: "int \<Rightarrow> int \<Rightarrow> DefaultWorkerPool \<Rightarrow> DefaultWorkerPool" where
  "generateWorkers i bound p =
     (if i < bound then generateWorkers (i + 1) bound (generateWorker p) else p)"
  by pat_completeness auto
termination
  by (relation "measure (\<lambda>(i, bound, p). nat (bound - i))") auto

declare generateWorkers.simps [simp del]

definition trySpawn :: "DefaultWorkerPool \<Rightarrow> DefaultWorkerPool" where
  "trySpawn p =
     (let expected = expectedWorkerCount (tqCount (jobQueue p)) (workerBatchSize p)
                       (workerSizeStandBy p) (workerSizeMaximum p)
      in if workerCount p < expected then generateWorkers (workerCount p) expected p else p)"

text \<open>
  \<open>PreAllocWorkerSize\<close> run undisturbed, from its read of \<open>workerCount\<close> to the end
  of its loop; what another thread can do in between is in the section on the two
  spawning loops below.
\<close>

definition PreAllocWorkerSize :: "int \<Rightarrow> DefaultWorkerPool \<Rightarrow> DefaultWorkerPool" where
  "PreAllocWorkerSize preAllocWorkerSize p = generateWorkers (workerCount p) preAllocWorkerSize p"

text \<open>
  \<open>notifyWorkers\<close>: offer a wake-up to the spawn loop, but only when the pool is
  below its standby size or the queue holds something.
\<close>

definition notifyWorkers :: "DefaultWorkerPool \<Rightarrow> DefaultWorkerPool" where
  "notifyWorkers p =
     (if workerCount p < workerSizeStandBy p \<or> tqCount (jobQueue p) > 0
      then p\<lparr>spawnWorkerCh := snd (chOffer 1 (spawnWorkerCh p))\<rparr>
      else p)"

text \<open>
  One turn of \<open>for range spawnWorkerCh\<close> in \<open>spawnLoop\<close>: \<open>None\<close> while the receive
  blocks on an empty mailbox (or the loop has ended); otherwise a signal is taken, a
  closed pool ends the loop, an open one runs \<open>trySpawn\<close>. The sleep that follows
  only delays the next turn.
\<close>

definition spawnLoopIter :: "DefaultWorkerPool \<Rightarrow> DefaultWorkerPool option" where
  "spawnLoopIter p =
     (if \<not> spawnLoopRunning p then None
      else case chBuf (spawnWorkerCh p) of
             [] \<Rightarrow> None
           | x # xs \<Rightarrow>
               (let p = p\<lparr>spawnWorkerCh := (spawnWorkerCh p)\<lparr>chBuf := xs\<rparr>\<rparr>
                in if isClosed p then Some (p\<lparr>spawnLoopRunning := False\<rparr>)
                   else Some (trySpawn p)))"

section \<open>The worker goroutine\<close>

definition isActive :: "nat \<Rightarrow> DefaultWorkerPool \<Rightarrow> bool" where
  "isActive w p = (w < length (workers p) \<and> workers p ! w = Active)"

text \<open>
  The deferred function of the goroutine, run when worker \<open>w\<close> leaves its loop:
  \<open>recovered\<close> is what \<open>recover()\<close> returns. A handler is taken to return normally.
\<close>

definition workerExit :: "nat \<Rightarrow> panic_value option \<Rightarrow> DefaultWorkerPool \<Rightarrow> DefaultWorkerPool" where
  "workerExit w recovered p =
     (let p = (case recovered of
                 None \<Rightarrow> p
               | Some v \<Rightarrow>
                   (case panicHandler p of
                      None \<Rightarrow> p
                    | Some h \<Rightarrow> p\<lparr>effects := effects p @ [HandlerCalled h v]\<rparr>))
      in p\<lparr>workerCount := workerCount p - 1, workers := (workers p)[w := Retired]\<rparr>)"

text \<open>
  The first case of the \<open>select\<close>: a \<open>nil\<close> job is skipped, a job that returns lets
  the loop go on, a panic unwinds out of the loop into the deferred function.
\<close>

fun runJob :: "nat \<Rightarrow> job option \<Rightarrow> DefaultWorkerPool \<Rightarrow> DefaultWorkerPool" where
  "runJob w None p = p"
| "runJob w (Some (Job n Returns)) p = p\<lparr>effects := effects p @ [Executed (Job n Returns)]\<rparr>"
| "runJob w (Some (Job n (Panics v))) p =
     workerExit w (Some v) (p\<lparr>effects := effects p @ [Executed (Job n (Panics v))]\<rparr>)"

text \<open>
  What the \<open>select\<close> of one turn of the worker's loop yields: a value received from the
  queue's channel, or the expiry timer.
\<close>

datatype select_event = Recv "job option" | Expire

definition workerIter :: "nat \<Rightarrow> select_event \<Rightarrow> DefaultWorkerPool \<Rightarrow> DefaultWorkerPool" where
  "workerIter w ev p =
     (let p = p\<lparr>lastAccessTime := clock p\<rparr>
      in case ev of
           Recv job \<Rightarrow> runJob w job p
         | Expire \<Rightarrow>
             (if workerCount p > workerSizeStandBy p \<or> workerCount p > workerSizeMaximum p
              then workerExit w None p
              else p))"

text \<open>
  The loop of worker \<open>w\<close> against the events its \<open>select\<close> sees; it stops at the turn
  that retires the worker, and waits in the \<open>select\<close> when the events run out.
\<close>

fun workerLoop :: "nat \<Rightarrow> select_event list \<Rightarrow> DefaultWorkerPool \<Rightarrow> DefaultWorkerPool" where
  "workerLoop w [] p = p"
| "workerLoop w (ev # evs) p =
     (if isActive w p then workerLoop w evs (workerIter w ev p) else p)"

section \<open>The public methods\<close>

text \<open>
  The setters return the receiver pointer. Their model takes the receiver's address
  together with the receiver's state, and gives back the returned pointer and the new
  state.
\<close>

type_synonym ref = nat

definition SetJobQueue :: "taskQueue \<Rightarrow> ref \<Rightarrow> DefaultWorkerPool \<Rightarrow> ref \<times> DefaultWorkerPool" where
  "SetJobQueue jobQueue' self p = (self, p\<lparr>jobQueue := jobQueue'\<rparr>)"

definition SetIsJobQueueClosedWhenClose ::
  "bool \<Rightarrow> ref \<Rightarrow> DefaultWorkerPool \<Rightarrow> ref \<times> DefaultWorkerPool" where
  "SetIsJobQueueClosedWhenClose isJobQueueClosedWhenClose' self p =
     (self, p\<lparr>isJobQueueClosedWhenClose := isJobQueueClosedWhenClose'\<rparr>)"

definition SetPanicHandler ::
  "handler option \<Rightarrow> ref \<Rightarrow> DefaultWorkerPool \<Rightarrow> ref \<times> DefaultWorkerPool" where
  "SetPanicHandler panicHandler' self p = (self, p\<lparr>panicHandler := panicHandler'\<rparr>)"

definition SetWorkerBatchSize :: "int \<Rightarrow> ref \<Rightarrow> DefaultWorkerPool \<Rightarrow> ref \<times> DefaultWorkerPool" where
  "SetWorkerBatchSize workerBatchSize' self p =
     (self, notifyWorkers (p\<lparr>workerBatchSize := workerBatchSize'\<rparr>))"

definition SetWorkerSizeStandBy :: "int \<Rightarrow> ref \<Rightarrow> DefaultWorkerPool \<Rightarrow> ref \<times> DefaultWorkerPool" where
  "SetWorkerSizeStandBy workerSizeStandBy' self p =
     (self, notifyWorkers (p\<lparr>workerSizeStandBy := workerSizeStandBy'\<rparr>))"

definition SetWorkerSizeMaximum :: "int \<Rightarrow> ref \<Rightarrow> DefaultWorkerPool \<Rightarrow> ref \<times> DefaultWorkerPool" where
  "SetWorkerSizeMaximum workerSizeMaximum' self p =
     (self, notifyWorkers (p\<lparr>workerSizeMaximum := workerSizeMaximum'\<rparr>))"

definition SetSpawnWorkerDuration ::
  "duration \<Rightarrow> ref \<Rightarrow> DefaultWorkerPool \<Rightarrow> ref \<times> DefaultWorkerPool" where
  "SetSpawnWorkerDuration spawnWorkerDuration' self p =
     (self, p\<lparr>spawnWorkerDuration := spawnWorkerDuration'\<rparr>)"

definition SetWorkerExpiryDuration ::
  "duration \<Rightarrow> ref \<Rightarrow> DefaultWorkerPool \<Rightarrow> ref \<times> DefaultWorkerPool" where
  "SetWorkerExpiryDuration workerExpiryDuration' self p =
     (self, notifyWorkers (p\<lparr>workerExpiryDuration := workerExpiryDuration'\<rparr>))"

definition IsClosed :: "DefaultWorkerPool \<Rightarrow> bool" where
  "IsClosed p = isClosed p"

definition Close :: "DefaultWorkerPool \<Rightarrow> DefaultWorkerPool" where
  "Close p =
     (if IsClosed p then p
      else (let p = p\<lparr>isClosed := True\<rparr>
            in if isJobQueueClosedWhenClose p then p\<lparr>jobQueue := tqClose (jobQueue p)\<rparr>
               else p))"

text \<open>
  \<open>Schedule\<close>: the deferred offer to the mailbox runs after the offer to the queue has
  produced the result, whatever that result is.
\<close>

definition Schedule :: "job option \<Rightarrow> DefaultWorkerPool \<Rightarrow> error option \<times> DefaultWorkerPool" where
  "Schedule fn p =
     (if IsClosed p then (Some ErrWorkerPoolIsClosed, p)
      else (let (err, q) = tqOffer fn (jobQueue p);
                p = p\<lparr>jobQueue := q\<rparr>;
                p = p\<lparr>spawnWorkerCh := snd (chOffer 1 (spawnWorkerCh p))\<rparr>
            in (err, p)))"

definition ScheduleWithTimeout ::
  "job option \<Rightarrow> duration \<Rightarrow> DefaultWorkerPool \<Rightarrow> error option \<times> DefaultWorkerPool" where
  "ScheduleWithTimeout fn timeout p =
     (if IsClosed p then (Some ErrWorkerPoolIsClosed, p)
      else (let (err, q) = tqOffer fn (jobQueue p);
                p = p\<lparr>jobQueue := q\<rparr>;
                p = p\<lparr>spawnWorkerCh := snd (chOffer 1 (spawnWorkerCh p))\<rparr>
            in (err, p)))"

section \<open>The pool and its goroutines together\<close>

text \<open>
  What can happen to a pool, one atomic action at a time: a call of a public method by
  any goroutine, a turn of the spawn loop, a turn of the loop of worker \<open>w\<close> (it
  receives from the queue, or its timer fires), and the passing of time. An action that
  cannot happen (a blocked receive, a retired worker) leaves the state as it is.
\<close>

datatype action =
    CallClose
  | CallSchedule "job option"
  | CallScheduleWithTimeout "job option" duration
  | CallPreAllocWorkerSize int
  | CallSetJobQueue taskQueue
  | CallSetIsJobQueueClosedWhenClose bool
  | CallSetPanicHandler "handler option"
  | CallSetWorkerBatchSize int
  | CallSetWorkerSizeStandBy int
  | CallSetWorkerSizeMaximum int
  | CallSetSpawnWorkerDuration duration
  | CallSetWorkerExpiryDuration duration
  | SpawnLoopTurn
  | WorkerReceives nat
  | WorkerTimerFires nat
  | Tick

fun step :: "action \<Rightarrow> DefaultWorkerPool \<Rightarrow> DefaultWorkerPool" where
  "step CallClose p = Close p"
| "step (CallSchedule fn) p = snd (Schedule fn p)"
| "step (CallScheduleWithTimeout fn t) p = snd (ScheduleWithTimeout fn t p)"
| "step (CallPreAllocWorkerSize n) p = PreAllocWorkerSize n p"
| "step (CallSetJobQueue q) p = snd (SetJobQueue q 0 p)"
| "step (CallSetIsJobQueueClosedWhenClose b) p = snd (SetIsJobQueueClosedWhenClose b 0 p)"
| "step (CallSetPanicHandler h) p = snd (SetPanicHandler h 0 p)"
| "step (CallSetWorkerBatchSize n) p = snd (SetWorkerBatchSize n 0 p)"
| "step (CallSetWorkerSizeStandBy n) p = snd (SetWorkerSizeStandBy n 0 p)"
| "step (CallSetWorkerSizeMaximum n) p = snd (SetWorkerSizeMaximum n 0 p)"
| "step (CallSetSpawnWorkerDuration d) p = snd (SetSpawnWorkerDuration d 0 p)"
| "step (CallSetWorkerExpiryDuration d) p = snd (SetWorkerExpiryDuration d 0 p)"
| "step SpawnLoopTurn p = (case spawnLoopIter p of None \<Rightarrow> p | Some p' \<Rightarrow> p')"
| "step (WorkerReceives w) p =
     (if isActive w p
      then (case tqReceive (jobQueue p) of
              None \<Rightarrow> p
            | Some (job, q) \<Rightarrow> workerIter w (Recv job) (p\<lparr>jobQueue := q\<rparr>))
      else p)"
| "step (WorkerTimerFires w) p = (if isActive w p then workerIter w Expire p else p)"
| "step Tick p = p\<lparr>clock := clock p + 1\<rparr>"

definition run :: "action list \<Rightarrow> DefaultWorkerPool \<Rightarrow> DefaultWorkerPool" where
  "run acts p = fold step acts p"

text \<open>The goroutines of workers that have not terminated.\<close>

definition liveWorkers :: "DefaultWorkerPool \<Rightarrow> nat" where
  "liveWorkers p = length (filter (\<lambda>s. s = Active) (workers p))"

text \<open>The worker count agrees with the number of live worker goroutines.\<close>

definition counted :: "DefaultWorkerPool \<Rightarrow> bool" where
  "counted p = (workerCount p = int (liveWorkers p))"

text \<open>The mailbox of the spawn loop has room for one signal and holds at most one.\<close>

definition mailboxOk :: "DefaultWorkerPool \<Rightarrow> bool" where
  "mailboxOk p = (chCap (spawnWorkerCh p) = 1 \<and> length (chBuf (spawnWorkerCh p)) \<le> 1)"

text \<open>
  The actions that neither offer a signal to the spawn loop nor call
  \<open>PreAllocWorkerSize\<close>: closing, the setters that do not call \<open>notifyWorkers\<close>, the
  turns of the goroutines, and time.
\<close>

fun quiet :: "action \<Rightarrow> bool" where
  "quiet CallClose = True"
| "quiet (CallSchedule fn) = False"
| "quiet (CallScheduleWithTimeout fn t) = False"
| "quiet (CallPreAllocWorkerSize n) = False"
| "quiet (CallSetJobQueue q) = True"
| "quiet (CallSetIsJobQueueClosedWhenClose b) = True"
| "quiet (CallSetPanicHandler h) = True"
| "quiet (CallSetWorkerBatchSize n) = False"
| "quiet (CallSetWorkerSizeStandBy n) = False"
| "quiet (CallSetWorkerSizeMaximum n) = False"
| "quiet (CallSetSpawnWorkerDuration d) = True"
| "quiet (CallSetWorkerExpiryDuration d) = False"
| "quiet SpawnLoopTurn = True"
| "quiet (WorkerReceives w) = True"
| "quiet (WorkerTimerFires w) = True"
| "quiet Tick = True"

section \<open>The two spawning loops side by side\<close>

text \<open>
  \<open>trySpawn\<close> and \<open>PreAllocWorkerSize\<close> above are the loops run undisturbed. In the
  program the caller of \<open>PreAllocWorkerSize\<close> and the goroutine of \<open>spawnLoop\<close> run
  side by side, and each loop starts from a read of \<open>workerCount\<close> that is taken without
  the lock, while \<open>generateWorker\<close> counts under it. Here the loops are taken apart:
  the variables \<open>i\<close> and \<open>bound\<close> of a loop in progress are kept per thread, and one
  turn of a loop is one step, so that the other thread can run in between.
\<close>

type_synonym loopVars = "int \<times> int"

record threads =
  tPool :: DefaultWorkerPool
  tCaller :: "loopVars option"
  tSpawner :: "loopVars option"

text \<open>
  One turn of \<open>for ...; i < bound; i++ { generateWorker() }\<close>: the test, and either the
  body with the increment or the end of the loop (\<open>None\<close>).
\<close>

definition loopTurn :: "loopVars \<Rightarrow> DefaultWorkerPool \<Rightarrow> loopVars option \<times> DefaultWorkerPool" where
  "loopTurn v p =
     (case v of (i, bound) \<Rightarrow>
        if i < bound then (Some (i + 1, bound), generateWorker p) else (None, p))"

text \<open>
  The steps of the two threads. The caller enters \<open>PreAllocWorkerSize n\<close> by reading
  \<open>workerCount\<close> into \<open>i\<close>. The spawn loop wakes on a signal as in \<open>spawnLoopIter\<close>
  and enters \<open>trySpawn\<close>: it computes the target and, when \<open>workerCount\<close> is below it,
  reads \<open>workerCount\<close> into \<open>i\<close>. Either thread then takes the turns of its loop.
\<close>

datatype turn = CallerEntersPreAlloc int | CallerLoopTurn | SpawnerWakes | SpawnerLoopTurn

fun interleave :: "turn \<Rightarrow> threads \<Rightarrow> threads" where
  "interleave (CallerEntersPreAlloc n) s =
     (case tCaller s of
        Some v \<Rightarrow> s
      | None \<Rightarrow> s\<lparr>tCaller := Some (workerCount (tPool s), n)\<rparr>)"
| "interleave CallerLoopTurn s =
     (case tCaller s of
        None \<Rightarrow> s
      | Some v \<Rightarrow> s\<lparr>tPool := snd (loopTurn v (tPool s)), tCaller := fst (loopTurn v (tPool s))\<rparr>)"
| "interleave SpawnerWakes s =
     (case tSpawner s of
        Some v \<Rightarrow> s
      | None \<Rightarrow>
          if \<not> spawnLoopRunning (tPool s) then s
          else (case chBuf (spawnWorkerCh (tPool s)) of
                  [] \<Rightarrow> s
                | x # xs \<Rightarrow>
                    (let p = (tPool s)\<lparr>spawnWorkerCh := (spawnWorkerCh (tPool s))\<lparr>chBuf := xs\<rparr>\<rparr>;
                         expected = expectedWorkerCount (tqCount (jobQueue p)) (workerBatchSize p)
                                      (workerSizeStandBy p) (workerSizeMaximum p)
                     in if isClosed p then s\<lparr>tPool := p\<lparr>spawnLoopRunning := False\<rparr>\<rparr>
                        else s\<lparr>tPool := p,
                               tSpawner := (if workerCount p < expected
                                            then Some (workerCount p, expected) else None)\<rparr>)))"
| "interleave SpawnerLoopTurn s =
     (case tSpawner s of
        None \<Rightarrow> s
      | Some v \<Rightarrow> s\<lparr>tPool := snd (loopTurn v (tPool s)), tSpawner := fst (loopTurn v (tPool s))\<rparr>)"

definition interleaving :: "turn list \<Rightarrow> threads \<Rightarrow> threads" where
  "interleaving ts s = fold interleave ts s"

section \<open>The scaling policy\<close>

lemma goDiv_nonneg: "0 \<le> a \<Longrightarrow> 0 < b \<Longrightarrow> goDiv a b = a div b"
  by (cases "a = 0") (simp_all add: goDiv_def)

lemma goMod_nonneg: "0 \<le> a \<Longrightarrow> 0 < b \<Longrightarrow> goMod a b = a mod b"
  by (simp add: goMod_def goDiv_nonneg minus_mult_div_eq_mod)

lemma ceiling_div_int:
  fixes a b :: int
  assumes "0 < b"
  shows "\<lceil>real_of_int a / real_of_int b\<rceil> = (if a mod b > 0 then a div b + 1 else a div b)"
proof -
  have "\<lceil>real_of_int a / real_of_int b\<rceil> = - ((- a) div b)"
    by (simp add: ceiling_divide_eq_div)
  also have "\<dots> = (if a mod b > 0 then a div b + 1 else a div b)"
  proof -
    have "0 \<le> a mod b" using assms by simp
    moreover have "(- a) div b = (if a mod b = 0 then - (a div b) else - (a div b) - 1)"
      using assms by (simp add: zdiv_zminus1_eq_if)
    ultimately show ?thesis by (auto split: if_splits)
  qed
  finally show ?thesis .
qed

lemma expectedWorkerCount_div_mod:
  assumes "0 \<le> d"
  shows "expectedWorkerCount d b s m =
           (let b' = (if b \<le> 0 then 1 else b);
                e = (if d mod b' > 0 then d div b' + 1 else d div b');
                e = max e s
            in if m > 0 then min e m else e)"
proof -
  define b' where "b' = (if b \<le> 0 then 1 else b)"
  have pos: "0 < b'" by (simp add: b'_def)
  have b'_alt: "(if b < 1 then 1 else b) = b'" by (simp add: b'_def)
  show ?thesis
    unfolding expectedWorkerCount_def Let_def b'_alt b'_def [symmetric]
    using assms pos by (simp add: goDiv_nonneg goMod_nonneg max_def min_def)
qed

text \<open>
  The target lies between the smaller of standby and maximum and the larger of queue
  count and standby, and the quotient inside it between 0 and the queue count: no step
  of the computation leaves the range of its operands.
\<close>

lemma expectedWorkerCount_bounds:
  assumes "0 \<le> d"
  shows "min s m \<le> expectedWorkerCount d b s m" and "expectedWorkerCount d b s m \<le> max d s"
proof -
  define b' where "b' = (if b \<le> 0 then 1 else b)"
  have pos: "0 < b'" by (simp add: b'_def)
  define e where "e = (if d mod b' > 0 then d div b' + 1 else d div b')"
  have "d div b' \<le> d div 1" using assms pos by (intro zdiv_mono2) simp_all
  then have "d div b' \<le> d" by simp
  moreover have "d mod b' > 0 \<Longrightarrow> d div b' < d"
  proof -
    assume m: "d mod b' > 0"
    then have "b' \<noteq> 1" by auto
    with pos have "1 < b'" by simp
    moreover have "0 < d" using m assms by (cases "d = 0") simp_all
    ultimately show "d div b' < d" by (simp add: int_div_less_self)
  qed
  ultimately have ub: "e \<le> d" by (auto simp: e_def)
  have eq: "expectedWorkerCount d b s m = (if m > 0 then min (max e s) m else max e s)"
    using expectedWorkerCount_div_mod [OF assms, of b s m]
    by (simp add: Let_def b'_def e_def)
  show "min s m \<le> expectedWorkerCount d b s m" unfolding eq by auto
  show "expectedWorkerCount d b s m \<le> max d s" unfolding eq using ub by auto
qed

text \<open>
  C1. For every queue depth \<open>d \<ge> 0\<close>, batch size \<open>b\<close>, standby floor \<open>s\<close> and
  ceiling \<open>m\<close>, the target that \<open>trySpawn\<close> computes is \<open>ceil(d / b)\<close> with \<open>b\<close>
  raised to 1 when it is not positive, then raised to \<open>s\<close>, then lowered to \<open>m\<close> when
  \<open>m > 0\<close>.
\<close>

theorem expectedWorkerCount_policy:
  assumes "0 \<le> d"
  shows "expectedWorkerCount d b s m =
           (let b' = (if b \<le> 0 then 1 else b);
                target = \<lceil>real_of_int d / real_of_int b'\<rceil>;
                target = max target s
            in if m > 0 then min target m else target)"
proof -
  have pos: "0 < (if b \<le> 0 then 1 else b)" by simp
  show ?thesis
    unfolding expectedWorkerCount_div_mod [OF assms] Let_def ceiling_div_int [OF pos] ..
qed

text \<open>The scenario of the spec: 23 tasks, batch size 5, standby 2, maximum 10.\<close>

theorem expectedWorkerCount_policy_witness:
  "(0::int) \<le> 23 \<and> expectedWorkerCount 23 5 2 10 = 5"
  using expectedWorkerCount_policy [of 23 5 2 10] by simp

section \<open>The worker count\<close>

lemma nat_diff_Suc: "i < bound \<Longrightarrow> nat (bound - i) = Suc (nat (bound - (i + 1)))" for i bound :: int
  by simp

lemma generateWorkers_closed_form:
  "generateWorkers i n p =
     (if i < n
      then p\<lparr>lastAccessTime := clock p,
             workerCount := workerCount p + (n - i),
             workers := workers p @ replicate (nat (n - i)) Active\<rparr>
      else p)"
proof (induction i n p rule: generateWorkers.induct)
  case (1 i bound p)
  show ?case
  proof (cases "i < bound")
    case False
    then show ?thesis by (simp add: generateWorkers.simps)
  next
    case True
    note IH = 1 [OF True]
    have step: "generateWorkers i bound p = generateWorkers (i + 1) bound (generateWorker p)"
      using True by (subst generateWorkers.simps) simp
    show ?thesis
    proof (cases "i + 1 < bound")
      case True2: True
      have "nat (bound - i) = Suc (nat (bound - (i + 1)))" using True by (rule nat_diff_Suc)
      then have rep: "replicate (nat (bound - i)) Active = Active # replicate (nat (bound - (i + 1))) Active"
        by simp
      show ?thesis
        unfolding step IH using True True2 by (simp add: generateWorker_def rep)
    next
      case False
      with True have eq: "bound = i + 1" by simp
      show ?thesis
        unfolding step IH using True False by (simp add: generateWorker_def eq)
    qed
  qed
qed

lemma filter_Active_update:
  "w < length xs \<Longrightarrow> xs ! w = Active \<Longrightarrow>
   Suc (length (filter (\<lambda>s. s = Active) (xs[w := Retired]))) = length (filter (\<lambda>s. s = Active) xs)"
proof (induction xs arbitrary: w)
  case Nil
  then show ?case by simp
next
  case (Cons x xs)
  then show ?case by (cases w) auto
qed


lemma generateWorker_fields [simp]:
  "workerCount (generateWorker p) = workerCount p + 1"
  "workers (generateWorker p) = workers p @ [Active]"
  by (simp_all add: generateWorker_def)

lemma liveWorkers_generateWorker: "liveWorkers (generateWorker p) = liveWorkers p + 1"
  by (simp add: liveWorkers_def)

lemma workerCount_generateWorkers:
  "workerCount (generateWorkers i n p) = (if i < n then workerCount p + (n - i) else workerCount p)"
  by (simp add: generateWorkers_closed_form)

lemma liveWorkers_generateWorkers:
  "liveWorkers (generateWorkers i n p) = (if i < n then liveWorkers p + nat (n - i) else liveWorkers p)"
  by (simp add: generateWorkers_closed_form liveWorkers_def)

lemma counted_generateWorkers: "counted p \<Longrightarrow> counted (generateWorkers i n p)"
  by (simp add: counted_def workerCount_generateWorkers liveWorkers_generateWorkers)

lemma counted_trySpawn: "counted p \<Longrightarrow> counted (trySpawn p)"
  by (simp add: trySpawn_def Let_def counted_generateWorkers)

lemma counted_PreAlloc: "counted p \<Longrightarrow> counted (PreAllocWorkerSize n p)"
  by (simp add: PreAllocWorkerSize_def counted_generateWorkers)

lemma counted_upd [simp]:
  "counted (p\<lparr>isClosed := c\<rparr>) = counted p"
  "counted (p\<lparr>jobQueue := q\<rparr>) = counted p"
  "counted (p\<lparr>spawnWorkerCh := ch\<rparr>) = counted p"
  "counted (p\<lparr>lastAccessTime := t\<rparr>) = counted p"
  "counted (p\<lparr>isJobQueueClosedWhenClose := b\<rparr>) = counted p"
  "counted (p\<lparr>workerBatchSize := n\<rparr>) = counted p"
  "counted (p\<lparr>workerSizeStandBy := n\<rparr>) = counted p"
  "counted (p\<lparr>workerSizeMaximum := n\<rparr>) = counted p"
  "counted (p\<lparr>spawnWorkerDuration := d\<rparr>) = counted p"
  "counted (p\<lparr>workerExpiryDuration := d\<rparr>) = counted p"
  "counted (p\<lparr>panicHandler := h\<rparr>) = counted p"
  "counted (p\<lparr>spawnLoopRunning := b\<rparr>) = counted p"
  "counted (p\<lparr>effects := es\<rparr>) = counted p"
  "counted (p\<lparr>clock := t\<rparr>) = counted p"
  by (simp_all add: counted_def liveWorkers_def)

lemma isActive_upd [simp]:
  "isActive w (p\<lparr>isClosed := c\<rparr>) = isActive w p"
  "isActive w (p\<lparr>jobQueue := q\<rparr>) = isActive w p"
  "isActive w (p\<lparr>spawnWorkerCh := ch\<rparr>) = isActive w p"
  "isActive w (p\<lparr>lastAccessTime := t\<rparr>) = isActive w p"
  "isActive w (p\<lparr>workerCount := n\<rparr>) = isActive w p"
  "isActive w (p\<lparr>effects := es\<rparr>) = isActive w p"
  "isActive w (p\<lparr>clock := t\<rparr>) = isActive w p"
  by (simp_all add: isActive_def)

lemma workerExit_fields:
  "workerCount (workerExit w r p) = workerCount p - 1"
  "workers (workerExit w r p) = (workers p)[w := Retired]"
  "isClosed (workerExit w r p) = isClosed p"
  "spawnWorkerCh (workerExit w r p) = spawnWorkerCh p"
  by (simp_all add: workerExit_def Let_def split: option.splits)

lemma not_isActive_workerExit: "\<not> isActive w (workerExit w r p)"
  by (simp add: isActive_def workerExit_fields)

lemma liveWorkers_workerExit:
  "isActive w p \<Longrightarrow> Suc (liveWorkers (workerExit w r p)) = liveWorkers p"
  by (simp add: liveWorkers_def workerExit_fields isActive_def filter_Active_update)

lemma counted_workerExit: "isActive w p \<Longrightarrow> counted p \<Longrightarrow> counted (workerExit w r p)"
  using liveWorkers_workerExit [of w p r] by (simp add: counted_def workerExit_fields)

lemma counted_runJob: "isActive w p \<Longrightarrow> counted p \<Longrightarrow> counted (runJob w job p)"
  by (induction w job p rule: runJob.induct) (simp_all add: counted_workerExit)

lemma counted_workerIter: "isActive w p \<Longrightarrow> counted p \<Longrightarrow> counted (workerIter w ev p)"
  by (simp add: workerIter_def Let_def counted_runJob counted_workerExit split: select_event.splits)

lemma counted_notifyWorkers: "counted (notifyWorkers p) = counted p"
  by (simp add: notifyWorkers_def)

lemma counted_Close: "counted (Close p) = counted p"
  by (simp add: Close_def Let_def)

lemma counted_Schedule: "counted (snd (Schedule fn p)) = counted p"
  by (simp add: Schedule_def Let_def split: prod.splits)

lemma counted_ScheduleWithTimeout: "counted (snd (ScheduleWithTimeout fn t p)) = counted p"
  by (simp add: ScheduleWithTimeout_def Let_def split: prod.splits)

lemma counted_spawnLoopIter: "counted p \<Longrightarrow> spawnLoopIter p = Some p' \<Longrightarrow> counted p'"
  by (auto simp: spawnLoopIter_def Let_def counted_trySpawn split: if_splits list.splits)

lemma counted_step: "counted p \<Longrightarrow> counted (step a p)"
proof (cases a)
  case SpawnLoopTurn
  assume "counted p"
  with SpawnLoopTurn show ?thesis
    by (auto simp: counted_spawnLoopIter split: option.splits)
next
  case (WorkerReceives w)
  assume "counted p"
  with WorkerReceives show ?thesis
    by (auto simp: counted_workerIter split: option.splits)
next
  case (WorkerTimerFires w)
  assume "counted p"
  with WorkerTimerFires show ?thesis by (simp add: counted_workerIter)
qed (simp_all add: counted_Close counted_Schedule counted_ScheduleWithTimeout counted_PreAlloc
      counted_notifyWorkers SetJobQueue_def SetIsJobQueueClosedWhenClose_def SetPanicHandler_def
      SetWorkerBatchSize_def SetWorkerSizeStandBy_def SetWorkerSizeMaximum_def
      SetSpawnWorkerDuration_def SetWorkerExpiryDuration_def)

lemma counted_run: "counted p \<Longrightarrow> counted (run acts p)"
  unfolding run_def by (induction acts arbitrary: p) (simp_all add: counted_step)

lemma counted_New: "counted (NewDefaultWorkerPool q)"
  by (simp add: counted_def NewDefaultWorkerPool_def liveWorkers_def)


lemma workerIter_count:
  "isActive w p \<Longrightarrow>
   (if isActive w (workerIter w ev p)
    then workerCount (workerIter w ev p) = workerCount p
    else workerCount (workerIter w ev p) = workerCount p - 1)"
proof (cases ev)
  case (Recv job)
  assume act: "isActive w p"
  show ?thesis
  proof (cases job)
    case None
    with Recv act show ?thesis by (simp add: workerIter_def)
  next
    case (Some j)
    obtain n out where j: "j = Job n out" by (cases j)
    show ?thesis
    proof (cases out)
      case Returns
      with Recv Some j act show ?thesis by (simp add: workerIter_def)
    next
      case (Panics v)
      with Recv Some j act show ?thesis
        by (simp add: workerIter_def not_isActive_workerExit workerExit_fields)
    qed
  qed
next
  case Expire
  assume "isActive w p"
  with Expire show ?thesis
    by (simp add: workerIter_def Let_def not_isActive_workerExit workerExit_fields)
qed

lemma workerLoop_count:
  "isActive w p \<Longrightarrow>
   (if isActive w (workerLoop w evs p)
    then workerCount (workerLoop w evs p) = workerCount p
    else workerCount (workerLoop w evs p) = workerCount p - 1)"
proof (induction evs arbitrary: p)
  case Nil
  then show ?case by simp
next
  case (Cons ev evs)
  show ?case
  proof (cases "isActive w (workerIter w ev p)")
    case True
    from Cons.IH [OF True] workerIter_count [OF Cons.prems, of ev] True Cons.prems
    show ?thesis by (simp split: if_splits)
  next
    case False
    with workerIter_count [OF Cons.prems, of ev] Cons.prems
    show ?thesis by (cases evs) simp_all
  qed
qed

text \<open>
  C6. In every state a fresh pool can reach, the worker count is the number of live
  worker goroutines, so it is never negative. \<open>generateWorker\<close> adds one to the count
  for the one goroutine it launches; a worker's loop leaves the count alone while the
  worker stays active and takes exactly one off when the worker terminates, whether it
  retired on expiry (\<open>recovered = None\<close>) or a panic unwound it.
\<close>

theorem workerCount_counts_live_workers:
  "workerCount (run acts (NewDefaultWorkerPool q)) = int (liveWorkers (run acts (NewDefaultWorkerPool q)))
   \<and> 0 \<le> workerCount (run acts (NewDefaultWorkerPool q))
   \<and> workerCount (generateWorker p) = workerCount p + 1
   \<and> liveWorkers (generateWorker p) = liveWorkers p + 1
   \<and> (isActive w p \<longrightarrow>
        (if isActive w (workerLoop w evs p)
         then workerCount (workerLoop w evs p) = workerCount p
         else workerCount (workerLoop w evs p) = workerCount p - 1))
   \<and> (isActive w p \<longrightarrow>
        workerCount (workerExit w recovered p) = workerCount p - 1
        \<and> Suc (liveWorkers (workerExit w recovered p)) = liveWorkers p
        \<and> \<not> isActive w (workerExit w recovered p))"
proof -
  have c: "counted (run acts (NewDefaultWorkerPool q))"
    by (rule counted_run [OF counted_New])
  then have "workerCount (run acts (NewDefaultWorkerPool q)) = int (liveWorkers (run acts (NewDefaultWorkerPool q)))"
    by (simp add: counted_def)
  moreover from this have "0 \<le> workerCount (run acts (NewDefaultWorkerPool q))" by simp
  ultimately show ?thesis
    using workerLoop_count [of w p evs] liveWorkers_workerExit [of w p recovered]
    by (simp add: liveWorkers_generateWorker workerExit_fields not_isActive_workerExit)
qed


text \<open>
  Six workers are pre-allocated on a fresh pool (standby 5); the timer of worker 0 fires
  twice: the first firing retires it and takes the count to 5, the second finds it gone.
\<close>

theorem workerCount_counts_live_workers_witness:
  "isActive 0 (PreAllocWorkerSize 6 (NewDefaultWorkerPool (NewBufferedChannelQueue 10)))
   \<and> \<not> isActive 0 (workerLoop 0 [Expire]
           (PreAllocWorkerSize 6 (NewDefaultWorkerPool (NewBufferedChannelQueue 10))))
   \<and> workerCount (workerLoop 0 [Expire]
           (PreAllocWorkerSize 6 (NewDefaultWorkerPool (NewBufferedChannelQueue 10)))) = 6 - 1
   \<and> workerCount (run [CallPreAllocWorkerSize 6, WorkerTimerFires 0, WorkerTimerFires 0]
           (NewDefaultWorkerPool (NewBufferedChannelQueue 10))) = 5
   \<and> liveWorkers (run [CallPreAllocWorkerSize 6, WorkerTimerFires 0, WorkerTimerFires 0]
           (NewDefaultWorkerPool (NewBufferedChannelQueue 10))) = 5"
proof -
  let ?p = "PreAllocWorkerSize 6 (NewDefaultWorkerPool (NewBufferedChannelQueue 10))"
  have act: "isActive 0 ?p" by code_simp
  have ret: "\<not> isActive 0 (workerLoop 0 [Expire] ?p)" by code_simp
  have cnt: "workerCount ?p = 6" by code_simp
  have r: "workerCount (run [CallPreAllocWorkerSize 6, WorkerTimerFires 0, WorkerTimerFires 0]
           (NewDefaultWorkerPool (NewBufferedChannelQueue 10))) = 5" by code_simp
  from workerCount_counts_live_workers
         [of "[CallPreAllocWorkerSize 6, WorkerTimerFires 0, WorkerTimerFires 0]"
             "NewBufferedChannelQueue 10" ?p 0 "[Expire]" None]
  show ?thesis using act ret cnt r by simp
qed

section \<open>The worker's loop\<close>

text \<open>
  C2, as the spec states it, fails: a worker does not go on with its loop after a task
  panicked. The \<open>recover\<close> sits in the function deferred by the goroutine, outside the
  \<open>for\<close>, so the panic ends the loop. Here worker 0 of a fresh pool receives a task
  that panics and then one that returns: it is retired after the first, and the second
  is never executed by it.
\<close>

theorem worker_survives_panic_counterexample:
  "\<not> isActive 0 (workerLoop 0 [Recv (Some (Job 1 (Panics 7))), Recv (Some (Job 2 Returns))]
                   (generateWorker (NewDefaultWorkerPool (NewBufferedChannelQueue 10))))
   \<and> effects (workerLoop 0 [Recv (Some (Job 1 (Panics 7))), Recv (Some (Job 2 Returns))]
                (generateWorker (NewDefaultWorkerPool (NewBufferedChannelQueue 10))))
       = [Executed (Job 1 (Panics 7)), HandlerCalled defaultPanicHandler 7]"
  by code_simp

text \<open>
  C2, as the code has it. For every task whose execution panics, the panic is caught by
  the deferred function of the worker's goroutine; the configured panic handler, when
  there is one, is called exactly once with the panic value (a \<open>nil\<close> handler is
  skipped); the worker count goes down by one and the worker retires, whatever its
  \<open>select\<close> would have seen next. The queue is not touched, so what is still queued
  stays there for the other workers.
\<close>

theorem panicking_job_retires_worker:
  assumes "isActive w p"
  shows "workerLoop w (Recv (Some (Job n (Panics v))) # evs) p =
           p\<lparr>lastAccessTime := clock p,
             effects := effects p @ Executed (Job n (Panics v))
                          # (case panicHandler p of None \<Rightarrow> [] | Some h \<Rightarrow> [HandlerCalled h v]),
             workerCount := workerCount p - 1,
             workers := (workers p)[w := Retired]\<rparr>
         \<and> \<not> isActive w (workerLoop w (Recv (Some (Job n (Panics v))) # evs) p)
         \<and> jobQueue (workerLoop w (Recv (Some (Job n (Panics v))) # evs) p) = jobQueue p"
proof -
  let ?p' = "workerIter w (Recv (Some (Job n (Panics v)))) p"
  have iter: "?p' = p\<lparr>lastAccessTime := clock p,
             effects := effects p @ Executed (Job n (Panics v))
                          # (case panicHandler p of None \<Rightarrow> [] | Some h \<Rightarrow> [HandlerCalled h v]),
             workerCount := workerCount p - 1,
             workers := (workers p)[w := Retired]\<rparr>"
    by (simp add: workerIter_def workerExit_def Let_def split: option.splits)
  have gone: "\<not> isActive w ?p'"
    by (simp add: workerIter_def not_isActive_workerExit)
  have "workerLoop w (Recv (Some (Job n (Panics v))) # evs) p = workerLoop w evs ?p'"
    using assms by simp
  also have "\<dots> = ?p'" using gone by (cases evs) simp_all
  finally have loop: "workerLoop w (Recv (Some (Job n (Panics v))) # evs) p = ?p'" .
  show ?thesis
    unfolding loop using gone by (simp add: iter)
qed

text \<open>The only worker of a fresh pool, with the default handler.\<close>

theorem panicking_job_retires_worker_witness:
  "isActive 0 (generateWorker (NewDefaultWorkerPool (NewBufferedChannelQueue 10)))
   \<and> \<not> isActive 0 (workerLoop 0 [Recv (Some (Job 1 (Panics 7))), Recv (Some (Job 2 Returns))]
                   (generateWorker (NewDefaultWorkerPool (NewBufferedChannelQueue 10))))
   \<and> workerCount (workerLoop 0 [Recv (Some (Job 1 (Panics 7))), Recv (Some (Job 2 Returns))]
                   (generateWorker (NewDefaultWorkerPool (NewBufferedChannelQueue 10)))) = 0"
proof -
  let ?p = "generateWorker (NewDefaultWorkerPool (NewBufferedChannelQueue 10))"
  let ?evs = "[Recv (Some (Job 1 (Panics 7))), Recv (Some (Job 2 Returns))]"
  have act: "isActive 0 ?p" by code_simp
  have cnt: "workerCount ?p = 1" by code_simp
  note T = panicking_job_retires_worker [OF act, of 1 7 "[Recv (Some (Job 2 Returns))]"]
  from T have gone: "\<not> isActive 0 (workerLoop 0 ?evs ?p)" by blast
  from T have eq: "workerLoop 0 ?evs ?p =
      ?p\<lparr>lastAccessTime := clock ?p,
         effects := effects ?p @ Executed (Job 1 (Panics 7))
                      # (case panicHandler ?p of None \<Rightarrow> [] | Some h \<Rightarrow> [HandlerCalled h 7]),
         workerCount := workerCount ?p - 1,
         workers := (workers ?p)[0 := Retired]\<rparr>" by blast
  have "workerCount (workerLoop 0 ?evs ?p) = workerCount ?p - 1"
    by (subst eq) simp
  with act gone cnt show ?thesis by simp
qed

text \<open>
  C7. When the idle-expiry timer of an active worker fires, the worker retires (it
  leaves its loop and the count goes down by one) if and only if the worker count
  exceeds the standby size or exceeds the maximum; otherwise it stays active and goes
  round its loop again, where a new timer is started.
\<close>

theorem idle_expiry_retires_above_standby_or_maximum:
  assumes "isActive w p"
  shows "((\<not> isActive w (workerIter w Expire p)) =
            (workerCount p > workerSizeStandBy p \<or> workerCount p > workerSizeMaximum p))
         \<and> workerLoop w (Expire # evs) p =
             (if workerCount p > workerSizeStandBy p \<or> workerCount p > workerSizeMaximum p
              then p\<lparr>lastAccessTime := clock p,
                     workerCount := workerCount p - 1,
                     workers := (workers p)[w := Retired]\<rparr>
              else workerLoop w evs (p\<lparr>lastAccessTime := clock p\<rparr>))"
proof
  show "(\<not> isActive w (workerIter w Expire p)) =
           (workerCount p > workerSizeStandBy p \<or> workerCount p > workerSizeMaximum p)"
    using assms by (simp add: workerIter_def Let_def not_isActive_workerExit)
  show "workerLoop w (Expire # evs) p =
           (if workerCount p > workerSizeStandBy p \<or> workerCount p > workerSizeMaximum p
            then p\<lparr>lastAccessTime := clock p,
                   workerCount := workerCount p - 1,
                   workers := (workers p)[w := Retired]\<rparr>
            else workerLoop w evs (p\<lparr>lastAccessTime := clock p\<rparr>))"
  proof (cases "workerCount p > workerSizeStandBy p \<or> workerCount p > workerSizeMaximum p")
    case True
    then have iter: "workerIter w Expire p = workerExit w None (p\<lparr>lastAccessTime := clock p\<rparr>)"
      by (simp add: workerIter_def Let_def)
    have "workerLoop w (Expire # evs) p = workerLoop w evs (workerIter w Expire p)"
      using assms by simp
    also have "\<dots> = workerIter w Expire p"
      unfolding iter using not_isActive_workerExit by (cases evs) simp_all
    finally show ?thesis using True by (simp add: iter workerExit_def)
  next
    case False
    then show ?thesis using assms by (simp add: workerIter_def Let_def)
  qed
qed

text \<open>
  With the default standby of 5 and maximum of 1000: of six workers the first to expire
  retires, of five it stays.
\<close>

theorem idle_expiry_retires_above_standby_or_maximum_witness:
  "isActive 0 (PreAllocWorkerSize 6 (NewDefaultWorkerPool (NewBufferedChannelQueue 10)))
   \<and> \<not> isActive 0 (workerIter 0 Expire
          (PreAllocWorkerSize 6 (NewDefaultWorkerPool (NewBufferedChannelQueue 10))))
   \<and> isActive 0 (PreAllocWorkerSize 5 (NewDefaultWorkerPool (NewBufferedChannelQueue 10)))
   \<and> isActive 0 (workerIter 0 Expire
          (PreAllocWorkerSize 5 (NewDefaultWorkerPool (NewBufferedChannelQueue 10))))"
proof -
  let ?p6 = "PreAllocWorkerSize 6 (NewDefaultWorkerPool (NewBufferedChannelQueue 10))"
  let ?p5 = "PreAllocWorkerSize 5 (NewDefaultWorkerPool (NewBufferedChannelQueue 10))"
  have act6: "isActive 0 ?p6" by code_simp
  have act5: "isActive 0 ?p5" by code_simp
  have f6: "workerCount ?p6 = 6" "workerSizeStandBy ?p6 = 5" "workerSizeMaximum ?p6 = 1000"
    by code_simp+
  have f5: "workerCount ?p5 = 5" "workerSizeStandBy ?p5 = 5" "workerSizeMaximum ?p5 = 1000"
    by code_simp+
  from idle_expiry_retires_above_standby_or_maximum [OF act6, of "[]"]
  have "(\<not> isActive 0 (workerIter 0 Expire ?p6)) =
          (workerCount ?p6 > workerSizeStandBy ?p6 \<or> workerCount ?p6 > workerSizeMaximum ?p6)"
    by blast
  then have r6: "\<not> isActive 0 (workerIter 0 Expire ?p6)" unfolding f6 by simp
  from idle_expiry_retires_above_standby_or_maximum [OF act5, of "[]"]
  have "(\<not> isActive 0 (workerIter 0 Expire ?p5)) =
          (workerCount ?p5 > workerSizeStandBy ?p5 \<or> workerCount ?p5 > workerSizeMaximum ?p5)"
    by blast
  then have r5: "isActive 0 (workerIter 0 Expire ?p5)" unfolding f5 by simp
  from act6 r6 act5 r5 show ?thesis by blast
qed

section \<open>Closing and scheduling\<close>

lemma isClosed_generateWorkers [simp]: "isClosed (generateWorkers i n p) = isClosed p"
  by (simp add: generateWorkers_closed_form)

lemma spawnWorkerCh_generateWorkers [simp]: "spawnWorkerCh (generateWorkers i n p) = spawnWorkerCh p"
  by (simp add: generateWorkers_closed_form)

lemma isClosed_trySpawn [simp]: "isClosed (trySpawn p) = isClosed p"
  by (simp add: trySpawn_def Let_def)

lemma spawnWorkerCh_trySpawn [simp]: "spawnWorkerCh (trySpawn p) = spawnWorkerCh p"
  by (simp add: trySpawn_def Let_def)

lemma isClosed_notifyWorkers [simp]: "isClosed (notifyWorkers p) = isClosed p"
  by (simp add: notifyWorkers_def)

lemma isClosed_runJob [simp]: "isClosed (runJob w job p) = isClosed p"
  by (induction w job p rule: runJob.induct) (simp_all add: workerExit_fields)

lemma spawnWorkerCh_runJob [simp]: "spawnWorkerCh (runJob w job p) = spawnWorkerCh p"
  by (induction w job p rule: runJob.induct) (simp_all add: workerExit_fields)

lemma isClosed_workerIter [simp]: "isClosed (workerIter w ev p) = isClosed p"
  by (simp add: workerIter_def Let_def workerExit_fields split: select_event.splits)

lemma spawnWorkerCh_workerIter [simp]: "spawnWorkerCh (workerIter w ev p) = spawnWorkerCh p"
  by (simp add: workerIter_def Let_def workerExit_fields split: select_event.splits)

lemma isClosed_Close [simp]: "isClosed (Close p)"
  by (simp add: Close_def IsClosed_def Let_def)

lemma isClosed_Schedule [simp]: "isClosed (snd (Schedule fn p)) = isClosed p"
  by (simp add: Schedule_def IsClosed_def Let_def split: prod.splits)

lemma ScheduleWithTimeout_eq_Schedule: "ScheduleWithTimeout fn t p = Schedule fn p"
  by (simp add: ScheduleWithTimeout_def Schedule_def)

lemma isClosed_spawnLoopIter: "spawnLoopIter p = Some p' \<Longrightarrow> isClosed p' = isClosed p"
  by (auto simp: spawnLoopIter_def Let_def split: if_splits list.splits)

lemma isClosed_step: "isClosed p \<Longrightarrow> isClosed (step a p)"
  by (cases a)
     (auto simp: ScheduleWithTimeout_eq_Schedule PreAllocWorkerSize_def SetJobQueue_def
        SetIsJobQueueClosedWhenClose_def SetPanicHandler_def SetWorkerBatchSize_def
        SetWorkerSizeStandBy_def SetWorkerSizeMaximum_def SetSpawnWorkerDuration_def
        SetWorkerExpiryDuration_def isClosed_spawnLoopIter split: option.splits)

lemma isClosed_run: "isClosed p \<Longrightarrow> isClosed (run acts p)"
  unfolding run_def by (induction acts arbitrary: p) (simp_all add: isClosed_step)

lemma Schedule_closed: "isClosed p \<Longrightarrow> Schedule fn p = (Some ErrWorkerPoolIsClosed, p)"
  by (simp add: Schedule_def IsClosed_def)

lemma Schedule_open:
  "\<not> isClosed p \<Longrightarrow>
   Schedule fn p =
     (fst (tqOffer fn (jobQueue p)),
      p\<lparr>jobQueue := snd (tqOffer fn (jobQueue p)),
        spawnWorkerCh := snd (chOffer 1 (spawnWorkerCh p))\<rparr>)"
  by (simp add: Schedule_def IsClosed_def Let_def split: prod.splits)

lemma tqOffer_result: "fst (tqOffer fn q) \<in> {None, Some ErrQueueIsFull, Some ErrQueueIsClosed}"
  by (simp add: tqOffer_def)

lemma chOffer_cap1:
  "chCap c = 1 \<Longrightarrow> length (chBuf c) \<le> 1 \<Longrightarrow> chBuf (snd (chOffer v c)) = (if chBuf c = [] then [v] else chBuf c)"
  by (auto simp: chOffer_def)

lemma chCap_chOffer [simp]: "chCap (snd (chOffer v c)) = chCap c"
  by (simp add: chOffer_def)

lemma length_chOffer: "length (chBuf c) \<le> chCap c \<Longrightarrow> length (chBuf (snd (chOffer v c))) \<le> chCap c"
  by (simp add: chOffer_def)

lemma mailboxOk_chOffer: "mailboxOk p \<Longrightarrow> mailboxOk (p\<lparr>spawnWorkerCh := snd (chOffer v (spawnWorkerCh p))\<rparr>)"
  using length_chOffer [of "spawnWorkerCh p" v] by (simp add: mailboxOk_def)

lemma mailboxOk_cong: "spawnWorkerCh p' = spawnWorkerCh p \<Longrightarrow> mailboxOk p' = mailboxOk p"
  by (simp add: mailboxOk_def)

lemma mailboxOk_upd [simp]:
  "mailboxOk (p\<lparr>jobQueue := q\<rparr>) = mailboxOk p"
  "mailboxOk (p\<lparr>isJobQueueClosedWhenClose := b\<rparr>) = mailboxOk p"
  "mailboxOk (p\<lparr>workerBatchSize := n\<rparr>) = mailboxOk p"
  "mailboxOk (p\<lparr>workerSizeStandBy := n\<rparr>) = mailboxOk p"
  "mailboxOk (p\<lparr>workerSizeMaximum := n\<rparr>) = mailboxOk p"
  "mailboxOk (p\<lparr>spawnWorkerDuration := d\<rparr>) = mailboxOk p"
  "mailboxOk (p\<lparr>workerExpiryDuration := d\<rparr>) = mailboxOk p"
  "mailboxOk (p\<lparr>panicHandler := h\<rparr>) = mailboxOk p"
  "mailboxOk (p\<lparr>clock := t\<rparr>) = mailboxOk p"
  by (simp_all add: mailboxOk_def)

lemma mailboxOk_notifyWorkers: "mailboxOk p \<Longrightarrow> mailboxOk (notifyWorkers p)"
  by (simp add: notifyWorkers_def mailboxOk_chOffer)

lemma mailboxOk_Schedule: "mailboxOk p \<Longrightarrow> mailboxOk (snd (Schedule fn p))"
  using length_chOffer [of "spawnWorkerCh p" 1]
  by (cases "isClosed p") (simp_all add: Schedule_closed Schedule_open mailboxOk_def)

lemma mailboxOk_spawnLoopIter: "mailboxOk p \<Longrightarrow> spawnLoopIter p = Some p' \<Longrightarrow> mailboxOk p'"
  by (auto simp: spawnLoopIter_def Let_def mailboxOk_def split: if_splits list.splits)

lemma spawnWorkerCh_Close [simp]: "spawnWorkerCh (Close p) = spawnWorkerCh p"
  by (simp add: Close_def Let_def)

lemma mailboxOk_step: "mailboxOk p \<Longrightarrow> mailboxOk (step a p)"
proof (cases a)
  case SpawnLoopTurn
  assume "mailboxOk p"
  with SpawnLoopTurn show ?thesis by (auto simp: mailboxOk_spawnLoopIter split: option.splits)
next
  case (WorkerReceives w)
  assume "mailboxOk p"
  with WorkerReceives show ?thesis by (auto simp: mailboxOk_def split: option.splits)
next
  case (WorkerTimerFires w)
  assume "mailboxOk p"
  with WorkerTimerFires show ?thesis by (auto simp: mailboxOk_def)
next
  case CallClose
  assume "mailboxOk p"
  with CallClose show ?thesis by (simp add: mailboxOk_def)
next
  case (CallPreAllocWorkerSize n)
  assume "mailboxOk p"
  with CallPreAllocWorkerSize show ?thesis by (simp add: mailboxOk_def PreAllocWorkerSize_def)
qed (simp_all add: mailboxOk_Schedule ScheduleWithTimeout_eq_Schedule mailboxOk_notifyWorkers
      SetJobQueue_def SetIsJobQueueClosedWhenClose_def SetPanicHandler_def
      SetWorkerBatchSize_def SetWorkerSizeStandBy_def SetWorkerSizeMaximum_def
      SetSpawnWorkerDuration_def SetWorkerExpiryDuration_def)

lemma mailboxOk_run: "mailboxOk p \<Longrightarrow> mailboxOk (run acts p)"
  unfolding run_def by (induction acts arbitrary: p) (simp_all add: mailboxOk_step)

lemma mailboxOk_New: "mailboxOk (NewDefaultWorkerPool q)"
  by (simp add: mailboxOk_def NewDefaultWorkerPool_def NewChannelQueue_def)

text \<open>
  C3. For every task and every timeout, \<open>ScheduleWithTimeout\<close> does what \<open>Schedule\<close>
  does: \<open>ErrWorkerPoolIsClosed\<close> on a closed pool, without touching the queue, and
  otherwise the offer to the queue, whose result it returns, followed by the signal to
  the spawn loop. Its result is one of \<open>nil\<close>, \<open>ErrWorkerPoolIsClosed\<close>,
  \<open>ErrQueueIsFull\<close>, \<open>ErrQueueIsClosed\<close> and \<open>ErrWorkerPoolScheduleTimeout\<close>. The
  timeout has no part in the closed check, in the signal or in the running of the task:
  the call gives the same result and state for any two timeouts and runs no task
  itself. The offer it makes is the queue's non-blocking one, which has nothing to wait
  for.
\<close>

theorem ScheduleWithTimeout_contract:
  "ScheduleWithTimeout fn timeout p = Schedule fn p
   \<and> ScheduleWithTimeout fn timeout p = ScheduleWithTimeout fn timeout' p
   \<and> fst (ScheduleWithTimeout fn timeout p)
       \<in> {None, Some ErrWorkerPoolIsClosed, Some ErrQueueIsFull, Some ErrQueueIsClosed,
          Some ErrWorkerPoolScheduleTimeout}
   \<and> (IsClosed p \<longrightarrow> ScheduleWithTimeout fn timeout p = (Some ErrWorkerPoolIsClosed, p))
   \<and> (\<not> IsClosed p \<longrightarrow>
        ScheduleWithTimeout fn timeout p =
          (fst (tqOffer fn (jobQueue p)),
           p\<lparr>jobQueue := snd (tqOffer fn (jobQueue p)),
             spawnWorkerCh := snd (chOffer 1 (spawnWorkerCh p))\<rparr>))
   \<and> effects (snd (ScheduleWithTimeout fn timeout p)) = effects p"
proof -
  have eq: "ScheduleWithTimeout fn t p = Schedule fn p" for t
    by (rule ScheduleWithTimeout_eq_Schedule)
  have res: "fst (Schedule fn p)
       \<in> {None, Some ErrWorkerPoolIsClosed, Some ErrQueueIsFull, Some ErrQueueIsClosed,
          Some ErrWorkerPoolScheduleTimeout}"
    using tqOffer_result [of fn "jobQueue p"]
    by (cases "isClosed p") (auto simp: Schedule_closed Schedule_open)
  have cl: "IsClosed p \<longrightarrow> Schedule fn p = (Some ErrWorkerPoolIsClosed, p)"
    by (simp add: IsClosed_def Schedule_closed)
  have op: "\<not> IsClosed p \<longrightarrow>
        Schedule fn p =
          (fst (tqOffer fn (jobQueue p)),
           p\<lparr>jobQueue := snd (tqOffer fn (jobQueue p)),
             spawnWorkerCh := snd (chOffer 1 (spawnWorkerCh p))\<rparr>)"
    by (simp add: IsClosed_def Schedule_open)
  have ef: "effects (snd (Schedule fn p)) = effects p"
    by (cases "isClosed p") (simp_all add: Schedule_closed Schedule_open)
  from res cl op ef show ?thesis unfolding eq by blast
qed

text \<open>
  A second of timeout on a fresh pool over a queue of capacity 1, open and then closed.
\<close>

theorem ScheduleWithTimeout_contract_witness:
  "\<not> IsClosed (NewDefaultWorkerPool (NewBufferedChannelQueue 1))
   \<and> ScheduleWithTimeout (Some (Job 1 Returns)) (1000 * Millisecond)
        (NewDefaultWorkerPool (NewBufferedChannelQueue 1))
      = Schedule (Some (Job 1 Returns)) (NewDefaultWorkerPool (NewBufferedChannelQueue 1))
   \<and> fst (ScheduleWithTimeout (Some (Job 1 Returns)) (1000 * Millisecond)
        (NewDefaultWorkerPool (NewBufferedChannelQueue 1))) = None
   \<and> IsClosed (Close (NewDefaultWorkerPool (NewBufferedChannelQueue 1)))
   \<and> ScheduleWithTimeout (Some (Job 1 Returns)) (1000 * Millisecond)
        (Close (NewDefaultWorkerPool (NewBufferedChannelQueue 1)))
      = (Some ErrWorkerPoolIsClosed, Close (NewDefaultWorkerPool (NewBufferedChannelQueue 1)))"
proof -
  let ?p = "NewDefaultWorkerPool (NewBufferedChannelQueue 1)"
  let ?fn = "Some (Job 1 Returns)"
  let ?t = "1000 * Millisecond"
  have opn: "\<not> IsClosed ?p" by code_simp
  have cls: "IsClosed (Close ?p)" by code_simp
  have off: "fst (tqOffer ?fn (jobQueue ?p)) = None" by code_simp
  note T = ScheduleWithTimeout_contract [of ?fn ?t ?p 0]
  from T have a: "ScheduleWithTimeout ?fn ?t ?p = Schedule ?fn ?p" by blast
  from T opn have "ScheduleWithTimeout ?fn ?t ?p =
          (fst (tqOffer ?fn (jobQueue ?p)),
           ?p\<lparr>jobQueue := snd (tqOffer ?fn (jobQueue ?p)),
             spawnWorkerCh := snd (chOffer 1 (spawnWorkerCh ?p))\<rparr>)" by blast
  then have b: "fst (ScheduleWithTimeout ?fn ?t ?p) = None" by (simp only: fst_conv off)
  from ScheduleWithTimeout_contract [of ?fn ?t "Close ?p" 0] cls
  have c: "ScheduleWithTimeout ?fn ?t (Close ?p) = (Some ErrWorkerPoolIsClosed, Close ?p)"
    by blast
  from opn a b cls c show ?thesis by blast
qed

text \<open>
  C4. For every task, \<open>Schedule\<close> on a closed pool returns \<open>ErrWorkerPoolIsClosed\<close> and
  leaves the pool, its queue included, as it was. On an open pool it offers the task to
  the queue, returns what the offer returned (\<open>nil\<close>, \<open>ErrQueueIsFull\<close> or
  \<open>ErrQueueIsClosed\<close>), and offers a signal to the mailbox of the spawn loop without
  blocking: an empty mailbox then holds the signal, a full one drops it, so that one
  signal is pending afterwards. The mailbox of every pool made by
  \<open>NewDefaultWorkerPool\<close> has capacity 1, in every state the pool can reach.
\<close>

theorem Schedule_contract:
  "(IsClosed p \<longrightarrow> Schedule fn p = (Some ErrWorkerPoolIsClosed, p))
   \<and> (\<not> IsClosed p \<longrightarrow>
        Schedule fn p =
          (fst (tqOffer fn (jobQueue p)),
           p\<lparr>jobQueue := snd (tqOffer fn (jobQueue p)),
             spawnWorkerCh := snd (chOffer 1 (spawnWorkerCh p))\<rparr>)
        \<and> fst (Schedule fn p) \<in> {None, Some ErrQueueIsFull, Some ErrQueueIsClosed}
        \<and> (mailboxOk p \<longrightarrow>
             chBuf (spawnWorkerCh (snd (Schedule fn p)))
               = (if chBuf (spawnWorkerCh p) = [] then [1] else chBuf (spawnWorkerCh p))
             \<and> length (chBuf (spawnWorkerCh (snd (Schedule fn p)))) = 1))
   \<and> mailboxOk (run acts (NewDefaultWorkerPool q))"
proof (intro conjI impI)
  assume "IsClosed p"
  then show "Schedule fn p = (Some ErrWorkerPoolIsClosed, p)"
    by (simp add: Schedule_closed IsClosed_def)
next
  assume "\<not> IsClosed p"
  then show "Schedule fn p =
          (fst (tqOffer fn (jobQueue p)),
           p\<lparr>jobQueue := snd (tqOffer fn (jobQueue p)),
             spawnWorkerCh := snd (chOffer 1 (spawnWorkerCh p))\<rparr>)"
    by (simp add: Schedule_open IsClosed_def)
next
  assume "\<not> IsClosed p"
  then show "fst (Schedule fn p) \<in> {None, Some ErrQueueIsFull, Some ErrQueueIsClosed}"
    using tqOffer_result [of fn "jobQueue p"] by (simp add: Schedule_open IsClosed_def)
next
  assume o: "\<not> IsClosed p" and m: "mailboxOk p"
  then show "chBuf (spawnWorkerCh (snd (Schedule fn p)))
               = (if chBuf (spawnWorkerCh p) = [] then [1] else chBuf (spawnWorkerCh p))"
    by (simp add: Schedule_open IsClosed_def mailboxOk_def chOffer_cap1)
  with m show "length (chBuf (spawnWorkerCh (snd (Schedule fn p)))) = 1"
    by (cases "chBuf (spawnWorkerCh p)") (simp_all add: mailboxOk_def)
next
  show "mailboxOk (run acts (NewDefaultWorkerPool q))"
    by (rule mailboxOk_run [OF mailboxOk_New])
qed

text \<open>A fresh pool over a queue of capacity 1, open and then closed.\<close>

theorem Schedule_contract_witness:
  "\<not> IsClosed (NewDefaultWorkerPool (NewBufferedChannelQueue 1))
   \<and> mailboxOk (NewDefaultWorkerPool (NewBufferedChannelQueue 1))
   \<and> fst (Schedule (Some (Job 1 Returns)) (NewDefaultWorkerPool (NewBufferedChannelQueue 1)))
       \<in> {None, Some ErrQueueIsFull, Some ErrQueueIsClosed}
   \<and> length (chBuf (spawnWorkerCh (snd (Schedule (Some (Job 1 Returns))
                 (NewDefaultWorkerPool (NewBufferedChannelQueue 1)))))) = 1
   \<and> IsClosed (Close (NewDefaultWorkerPool (NewBufferedChannelQueue 1)))
   \<and> Schedule (Some (Job 1 Returns)) (Close (NewDefaultWorkerPool (NewBufferedChannelQueue 1)))
       = (Some ErrWorkerPoolIsClosed, Close (NewDefaultWorkerPool (NewBufferedChannelQueue 1)))"
proof -
  let ?p = "NewDefaultWorkerPool (NewBufferedChannelQueue 1)"
  let ?fn = "Some (Job 1 Returns)"
  have opn: "\<not> IsClosed ?p" by code_simp
  have mb: "mailboxOk ?p" by code_simp
  have cls: "IsClosed (Close ?p)" by code_simp
  from Schedule_contract [of ?p ?fn "[]" "NewBufferedChannelQueue 1"] opn mb
  have a: "fst (Schedule ?fn ?p) \<in> {None, Some ErrQueueIsFull, Some ErrQueueIsClosed}"
    and b: "length (chBuf (spawnWorkerCh (snd (Schedule ?fn ?p)))) = 1"
    by blast+
  from Schedule_contract [of "Close ?p" ?fn "[]" "NewBufferedChannelQueue 1"] cls
  have c: "Schedule ?fn (Close ?p) = (Some ErrWorkerPoolIsClosed, Close ?p)"
    by blast
  from opn mb a b cls c show ?thesis by blast
qed

text \<open>
  C5. \<open>Close\<close> is idempotent: on a closed pool it changes nothing. The first
  \<open>Close\<close> sets the closed flag and closes the queue exactly when
  \<open>isJobQueueClosedWhenClose\<close> is set, leaving the queue alone otherwise. Afterwards
  the pool is closed, and whatever happens to it next, every \<open>Schedule\<close> returns
  \<open>ErrWorkerPoolIsClosed\<close> and changes nothing.
\<close>

theorem Close_idempotent:
  "Close (Close p) = Close p
   \<and> (IsClosed p \<longrightarrow> Close p = p)
   \<and> (\<not> IsClosed p \<longrightarrow>
        Close p = p\<lparr>isClosed := True,
                    jobQueue := (if isJobQueueClosedWhenClose p then tqClose (jobQueue p)
                                 else jobQueue p)\<rparr>)
   \<and> IsClosed (Close p)
   \<and> Schedule fn (run acts (Close p)) = (Some ErrWorkerPoolIsClosed, run acts (Close p))"
proof (intro conjI impI)
  show "Close (Close p) = Close p" by (simp add: Close_def IsClosed_def Let_def)
  show "IsClosed (Close p)" by (simp add: IsClosed_def)
  show "Schedule fn (run acts (Close p)) = (Some ErrWorkerPoolIsClosed, run acts (Close p))"
    by (rule Schedule_closed) (rule isClosed_run, simp)
next
  assume "IsClosed p"
  then show "Close p = p" by (simp add: Close_def)
next
  assume "\<not> IsClosed p"
  then show "Close p = p\<lparr>isClosed := True,
                    jobQueue := (if isJobQueueClosedWhenClose p then tqClose (jobQueue p)
                                 else jobQueue p)\<rparr>"
    by (simp add: Close_def Let_def)
qed

text \<open>
  A fresh pool is closed; its queue is replaced, the spawn loop takes a turn and
  \<open>Close\<close> is called again before a task is scheduled.
\<close>

theorem Close_idempotent_witness:
  "\<not> IsClosed (NewDefaultWorkerPool (NewBufferedChannelQueue 1))
   \<and> tqClosed (jobQueue (Close (NewDefaultWorkerPool (NewBufferedChannelQueue 1))))
   \<and> IsClosed (Close (NewDefaultWorkerPool (NewBufferedChannelQueue 1)))
   \<and> Close (Close (NewDefaultWorkerPool (NewBufferedChannelQueue 1)))
       = Close (NewDefaultWorkerPool (NewBufferedChannelQueue 1))
   \<and> fst (Schedule (Some (Job 1 Returns))
            (run [CallSetJobQueue (NewBufferedChannelQueue 5), SpawnLoopTurn, CallClose]
               (Close (NewDefaultWorkerPool (NewBufferedChannelQueue 1)))))
       = Some ErrWorkerPoolIsClosed"
proof -
  let ?p = "NewDefaultWorkerPool (NewBufferedChannelQueue 1)"
  let ?acts = "[CallSetJobQueue (NewBufferedChannelQueue 5), SpawnLoopTurn, CallClose]"
  have opn: "\<not> IsClosed ?p" by code_simp
  have flag: "isJobQueueClosedWhenClose ?p" by code_simp
  note T = Close_idempotent [of ?p "Some (Job 1 Returns)" ?acts]
  from T opn have "Close ?p = ?p\<lparr>isClosed := True,
      jobQueue := (if isJobQueueClosedWhenClose ?p then tqClose (jobQueue ?p) else jobQueue ?p)\<rparr>"
    by blast
  then have q: "tqClosed (jobQueue (Close ?p))"
    using flag by (simp add: tqClose_def)
  from T have rest: "IsClosed (Close ?p)" "Close (Close ?p) = Close ?p"
    "Schedule (Some (Job 1 Returns)) (run ?acts (Close ?p))
       = (Some ErrWorkerPoolIsClosed, run ?acts (Close ?p))"
    by blast+
  from rest(3) have "fst (Schedule (Some (Job 1 Returns)) (run ?acts (Close ?p)))
       = Some ErrWorkerPoolIsClosed" by simp
  with opn q rest(1,2) show ?thesis by blast
qed

section \<open>Pre-allocation\<close>

lemma PreAllocWorkerSize_closed_form:
  "PreAllocWorkerSize n p =
     (if workerCount p < n
      then p\<lparr>lastAccessTime := clock p,
             workerCount := n,
             workers := workers p @ replicate (nat (n - workerCount p)) Active\<rparr>
      else p)"
  by (simp add: PreAllocWorkerSize_def generateWorkers_closed_form)

lemma notifyWorkers_fields [simp]:
  "workerCount (notifyWorkers p) = workerCount p"
  "workers (notifyWorkers p) = workers p"
  "jobQueue (notifyWorkers p) = jobQueue p"
  "workerBatchSize (notifyWorkers p) = workerBatchSize p"
  "workerSizeStandBy (notifyWorkers p) = workerSizeStandBy p"
  "workerSizeMaximum (notifyWorkers p) = workerSizeMaximum p"
  "spawnLoopRunning (notifyWorkers p) = spawnLoopRunning p"
  by (simp_all add: notifyWorkers_def)

lemma trySpawn_count:
  "workerCount (trySpawn p) =
     max (workerCount p)
       (expectedWorkerCount (tqCount (jobQueue p)) (workerBatchSize p)
          (workerSizeStandBy p) (workerSizeMaximum p))"
  by (simp add: trySpawn_def Let_def workerCount_generateWorkers)

text \<open>
  Taken turn by turn with nothing in between, the caller's loop is
  \<open>PreAllocWorkerSize\<close> as defined above.
\<close>

lemma fold_replicate_Suc: "fold f (replicate (Suc k) a) s = fold f (replicate k a) (f a s)"
  by (simp only: replicate_Suc fold.simps o_apply)

lemma callerTurns_generateWorkers:
  "tCaller s = Some (i, n) \<Longrightarrow>
   tPool (fold interleave (replicate (Suc (nat (n - i))) CallerLoopTurn) s) = generateWorkers i n (tPool s)
   \<and> tCaller (fold interleave (replicate (Suc (nat (n - i))) CallerLoopTurn) s) = None"
proof (induction "nat (n - i)" arbitrary: i s)
  case 0
  then have ge: "\<not> i < n" and z: "nat (n - i) = 0" by simp_all
  have "fold interleave (replicate (Suc (nat (n - i))) CallerLoopTurn) s = interleave CallerLoopTurn s"
    unfolding z by (simp only: fold_replicate_Suc replicate_0 fold.simps id_apply)
  with 0 ge show ?case by (simp add: loopTurn_def generateWorkers.simps [of i n])
next
  case (Suc k)
  then have lt: "i < n" by simp
  define s' where "s' = interleave CallerLoopTurn s"
  have c: "tCaller s' = Some (i + 1, n)" and p: "tPool s' = generateWorker (tPool s)"
    using Suc.prems lt by (simp_all add: s'_def loopTurn_def)
  have k: "k = nat (n - (i + 1))" using Suc.hyps(2) by simp
  have n: "nat (n - i) = Suc (nat (n - (i + 1)))" using lt by simp
  have f: "fold interleave (replicate (Suc (nat (n - i))) CallerLoopTurn) s
           = fold interleave (replicate (Suc (nat (n - (i + 1)))) CallerLoopTurn) s'"
    unfolding n s'_def by (rule fold_replicate_Suc)
  have g: "generateWorkers i n (tPool s) = generateWorkers (i + 1) n (generateWorker (tPool s))"
    using lt by (subst generateWorkers.simps) simp
  from Suc.hyps(1) [OF k c] show ?case
    unfolding f g p .
qed

lemma PreAllocWorkerSize_uninterrupted:
  assumes "tCaller s = None"
  shows "tPool (interleaving
           (CallerEntersPreAlloc n # replicate (Suc (nat (n - workerCount (tPool s)))) CallerLoopTurn) s)
         = PreAllocWorkerSize n (tPool s)"
proof -
  define s' where "s' = interleave (CallerEntersPreAlloc n) s"
  have c: "tCaller s' = Some (workerCount (tPool s), n)" and p: "tPool s' = tPool s"
    using assms by (simp_all add: s'_def)
  have "interleaving
           (CallerEntersPreAlloc n # replicate (Suc (nat (n - workerCount (tPool s)))) CallerLoopTurn) s
        = fold interleave (replicate (Suc (nat (n - workerCount (tPool s)))) CallerLoopTurn) s'"
    by (simp only: interleaving_def fold.simps o_apply s'_def)
  with callerTurns_generateWorkers [OF c] show ?thesis
    by (simp only: p PreAllocWorkerSize_def)
qed

text \<open>
  C8. The spec has \<open>PreAllocWorkerSize 10\<close> leave 10 workers on a fresh pool whose
  standby size was set to 2. Undisturbed, the call launches \<open>n - workerCount\<close> workers
  whatever the queue holds. But \<open>SetWorkerSizeStandBy 2\<close> on a fresh pool signals the
  spawn loop, and \<open>trySpawn\<close> starts from a read of \<open>workerCount\<close> taken without the
  lock, as \<open>PreAllocWorkerSize\<close> does, while the worker's expiry check reads the same
  field under the read lock. When the spawn loop reads 0 before the caller's workers are
  counted, both loops run in full: 12 workers are counted and alive once both have
  ended. When it reads the count after the caller's first worker, there are 11. Only
  when it wakes after the caller has finished are there 10.
\<close>

theorem PreAllocWorkerSize_races_with_trySpawn:
  "workerCount (tPool (interleaving
      [SpawnerWakes, CallerEntersPreAlloc 10,
       CallerLoopTurn, CallerLoopTurn, CallerLoopTurn, CallerLoopTurn, CallerLoopTurn,
       CallerLoopTurn, CallerLoopTurn, CallerLoopTurn, CallerLoopTurn, CallerLoopTurn,
       CallerLoopTurn, SpawnerLoopTurn, SpawnerLoopTurn, SpawnerLoopTurn]
      \<lparr>tPool = snd (SetWorkerSizeStandBy 2 0 (NewDefaultWorkerPool (NewBufferedChannelQueue 10))),
       tCaller = None, tSpawner = None\<rparr>)) = 12
   \<and> liveWorkers (tPool (interleaving
      [SpawnerWakes, CallerEntersPreAlloc 10,
       CallerLoopTurn, CallerLoopTurn, CallerLoopTurn, CallerLoopTurn, CallerLoopTurn,
       CallerLoopTurn, CallerLoopTurn, CallerLoopTurn, CallerLoopTurn, CallerLoopTurn,
       CallerLoopTurn, SpawnerLoopTurn, SpawnerLoopTurn, SpawnerLoopTurn]
      \<lparr>tPool = snd (SetWorkerSizeStandBy 2 0 (NewDefaultWorkerPool (NewBufferedChannelQueue 10))),
       tCaller = None, tSpawner = None\<rparr>)) = 12
   \<and> tCaller (interleaving
      [SpawnerWakes, CallerEntersPreAlloc 10,
       CallerLoopTurn, CallerLoopTurn, CallerLoopTurn, CallerLoopTurn, CallerLoopTurn,
       CallerLoopTurn, CallerLoopTurn, CallerLoopTurn, CallerLoopTurn, CallerLoopTurn,
       CallerLoopTurn, SpawnerLoopTurn, SpawnerLoopTurn, SpawnerLoopTurn]
      \<lparr>tPool = snd (SetWorkerSizeStandBy 2 0 (NewDefaultWorkerPool (NewBufferedChannelQueue 10))),
       tCaller = None, tSpawner = None\<rparr>) = None
   \<and> tSpawner (interleaving
      [SpawnerWakes, CallerEntersPreAlloc 10,
       CallerLoopTurn, CallerLoopTurn, CallerLoopTurn, CallerLoopTurn, CallerLoopTurn,
       CallerLoopTurn, CallerLoopTurn, CallerLoopTurn, CallerLoopTurn, CallerLoopTurn,
       CallerLoopTurn, SpawnerLoopTurn, SpawnerLoopTurn, SpawnerLoopTurn]
      \<lparr>tPool = snd (SetWorkerSizeStandBy 2 0 (NewDefaultWorkerPool (NewBufferedChannelQueue 10))),
       tCaller = None, tSpawner = None\<rparr>) = None
   \<and> workerCount (tPool (interleaving
      [CallerEntersPreAlloc 10, CallerLoopTurn, SpawnerWakes,
       CallerLoopTurn, CallerLoopTurn, CallerLoopTurn, CallerLoopTurn, CallerLoopTurn,
       CallerLoopTurn, CallerLoopTurn, CallerLoopTurn, CallerLoopTurn, CallerLoopTurn,
       SpawnerLoopTurn, SpawnerLoopTurn]
      \<lparr>tPool = snd (SetWorkerSizeStandBy 2 0 (NewDefaultWorkerPool (NewBufferedChannelQueue 10))),
       tCaller = None, tSpawner = None\<rparr>)) = 11
   \<and> workerCount (tPool (interleaving
      [CallerEntersPreAlloc 10,
       CallerLoopTurn, CallerLoopTurn, CallerLoopTurn, CallerLoopTurn, CallerLoopTurn,
       CallerLoopTurn, CallerLoopTurn, CallerLoopTurn, CallerLoopTurn, CallerLoopTurn,
       CallerLoopTurn, SpawnerWakes, SpawnerLoopTurn]
      \<lparr>tPool = snd (SetWorkerSizeStandBy 2 0 (NewDefaultWorkerPool (NewBufferedChannelQueue 10))),
       tCaller = None, tSpawner = None\<rparr>)) = 10"
  by code_simp

text \<open>The first of these runs does not end with 10 workers.\<close>

theorem PreAllocWorkerSize_races_with_trySpawn_witness:
  "workerCount (tPool (interleaving
      [SpawnerWakes, CallerEntersPreAlloc 10,
       CallerLoopTurn, CallerLoopTurn, CallerLoopTurn, CallerLoopTurn, CallerLoopTurn,
       CallerLoopTurn, CallerLoopTurn, CallerLoopTurn, CallerLoopTurn, CallerLoopTurn,
       CallerLoopTurn, SpawnerLoopTurn, SpawnerLoopTurn, SpawnerLoopTurn]
      \<lparr>tPool = snd (SetWorkerSizeStandBy 2 0 (NewDefaultWorkerPool (NewBufferedChannelQueue 10))),
       tCaller = None, tSpawner = None\<rparr>)) \<noteq> 10"
proof -
  from PreAllocWorkerSize_races_with_trySpawn
  have "workerCount (tPool (interleaving
      [SpawnerWakes, CallerEntersPreAlloc 10,
       CallerLoopTurn, CallerLoopTurn, CallerLoopTurn, CallerLoopTurn, CallerLoopTurn,
       CallerLoopTurn, CallerLoopTurn, CallerLoopTurn, CallerLoopTurn, CallerLoopTurn,
       CallerLoopTurn, SpawnerLoopTurn, SpawnerLoopTurn, SpawnerLoopTurn]
      \<lparr>tPool = snd (SetWorkerSizeStandBy 2 0 (NewDefaultWorkerPool (NewBufferedChannelQueue 10))),
       tCaller = None, tSpawner = None\<rparr>)) = 12"
    by (rule conjunct1)
  then show ?thesis by simp
qed

section \<open>The setters\<close>

text \<open>
  C9, as the spec states it, fails: a setter of a sizing parameter does not always signal
  the spawn loop. A fresh pool with five pre-allocated workers has reached its standby
  size of 5 and its queue is empty; the mailbox is empty before
  \<open>SetWorkerBatchSize 2\<close> and still empty after it.
\<close>

theorem setter_signals_always_counterexample:
  "chBuf (spawnWorkerCh
      (PreAllocWorkerSize 5 (NewDefaultWorkerPool (NewBufferedChannelQueue 10)))) = []
   \<and> chBuf (spawnWorkerCh (snd (SetWorkerBatchSize 2 0
      (PreAllocWorkerSize 5 (NewDefaultWorkerPool (NewBufferedChannelQueue 10)))))) = []"
  by code_simp

lemma notifyWorkers_mailbox:
  "spawnWorkerCh (notifyWorkers p) =
     (if workerCount p < workerSizeStandBy p \<or> tqItems (jobQueue p) \<noteq> []
      then snd (chOffer 1 (spawnWorkerCh p)) else spawnWorkerCh p)"
  by (simp add: notifyWorkers_def tqCount_def)

lemma notifyWorkers_signals:
  assumes "mailboxOk p" "chBuf (spawnWorkerCh p) = []"
  shows "(chBuf (spawnWorkerCh (notifyWorkers p)) = [1]) =
           (workerCount p < workerSizeStandBy p \<or> tqItems (jobQueue p) \<noteq> [])"
  using assms by (simp add: notifyWorkers_mailbox mailboxOk_def chOffer_def)

text \<open>
  C9, as the code has it. Every setter returns the pool it was called on and stores its
  argument. The setters of the job queue, of the close flag, of the panic handler and of
  the spawn interval do nothing else. The setters of batch size, standby size, maximum
  and expiry duration then call \<open>notifyWorkers\<close>, which offers a signal to the spawn
  loop only when the worker count is below the standby size (the new one, after
  \<open>SetWorkerSizeStandBy\<close>) or the queue is not empty, and does nothing otherwise.
\<close>

theorem setters_fluent_and_notify:
  "fst (SetJobQueue q self p) = self
   \<and> fst (SetIsJobQueueClosedWhenClose b self p) = self
   \<and> fst (SetPanicHandler h self p) = self
   \<and> fst (SetWorkerBatchSize n self p) = self
   \<and> fst (SetWorkerSizeStandBy n self p) = self
   \<and> fst (SetWorkerSizeMaximum n self p) = self
   \<and> fst (SetSpawnWorkerDuration d self p) = self
   \<and> fst (SetWorkerExpiryDuration d self p) = self
   \<and> snd (SetJobQueue q self p) = p\<lparr>jobQueue := q\<rparr>
   \<and> snd (SetIsJobQueueClosedWhenClose b self p) = p\<lparr>isJobQueueClosedWhenClose := b\<rparr>
   \<and> snd (SetPanicHandler h self p) = p\<lparr>panicHandler := h\<rparr>
   \<and> snd (SetSpawnWorkerDuration d self p) = p\<lparr>spawnWorkerDuration := d\<rparr>
   \<and> snd (SetWorkerBatchSize n self p) = notifyWorkers (p\<lparr>workerBatchSize := n\<rparr>)
   \<and> snd (SetWorkerSizeStandBy n self p) = notifyWorkers (p\<lparr>workerSizeStandBy := n\<rparr>)
   \<and> snd (SetWorkerSizeMaximum n self p) = notifyWorkers (p\<lparr>workerSizeMaximum := n\<rparr>)
   \<and> snd (SetWorkerExpiryDuration d self p) = notifyWorkers (p\<lparr>workerExpiryDuration := d\<rparr>)
   \<and> notifyWorkers p =
       (if workerCount p < workerSizeStandBy p \<or> tqItems (jobQueue p) \<noteq> []
        then p\<lparr>spawnWorkerCh := snd (chOffer 1 (spawnWorkerCh p))\<rparr> else p)
   \<and> (mailboxOk p \<and> chBuf (spawnWorkerCh p) = [] \<longrightarrow>
        (chBuf (spawnWorkerCh (snd (SetWorkerBatchSize n self p))) = [1])
          = (workerCount p < workerSizeStandBy p \<or> tqItems (jobQueue p) \<noteq> [])
        \<and> (chBuf (spawnWorkerCh (snd (SetWorkerSizeStandBy n self p))) = [1])
          = (workerCount p < n \<or> tqItems (jobQueue p) \<noteq> [])
        \<and> (chBuf (spawnWorkerCh (snd (SetWorkerSizeMaximum n self p))) = [1])
          = (workerCount p < workerSizeStandBy p \<or> tqItems (jobQueue p) \<noteq> [])
        \<and> (chBuf (spawnWorkerCh (snd (SetWorkerExpiryDuration d self p))) = [1])
          = (workerCount p < workerSizeStandBy p \<or> tqItems (jobQueue p) \<noteq> []))"
proof -
  have sig: "mailboxOk p \<and> chBuf (spawnWorkerCh p) = [] \<longrightarrow>
        (chBuf (spawnWorkerCh (snd (SetWorkerBatchSize n self p))) = [1])
          = (workerCount p < workerSizeStandBy p \<or> tqItems (jobQueue p) \<noteq> [])
        \<and> (chBuf (spawnWorkerCh (snd (SetWorkerSizeStandBy n self p))) = [1])
          = (workerCount p < n \<or> tqItems (jobQueue p) \<noteq> [])
        \<and> (chBuf (spawnWorkerCh (snd (SetWorkerSizeMaximum n self p))) = [1])
          = (workerCount p < workerSizeStandBy p \<or> tqItems (jobQueue p) \<noteq> [])
        \<and> (chBuf (spawnWorkerCh (snd (SetWorkerExpiryDuration d self p))) = [1])
          = (workerCount p < workerSizeStandBy p \<or> tqItems (jobQueue p) \<noteq> [])"
  proof
    assume a: "mailboxOk p \<and> chBuf (spawnWorkerCh p) = []"
    have 1: "mailboxOk (p\<lparr>workerBatchSize := n\<rparr>)" "mailboxOk (p\<lparr>workerSizeStandBy := n\<rparr>)"
      "mailboxOk (p\<lparr>workerSizeMaximum := n\<rparr>)" "mailboxOk (p\<lparr>workerExpiryDuration := d\<rparr>)"
      using a by simp_all
    show "(chBuf (spawnWorkerCh (snd (SetWorkerBatchSize n self p))) = [1])
          = (workerCount p < workerSizeStandBy p \<or> tqItems (jobQueue p) \<noteq> [])
        \<and> (chBuf (spawnWorkerCh (snd (SetWorkerSizeStandBy n self p))) = [1])
          = (workerCount p < n \<or> tqItems (jobQueue p) \<noteq> [])
        \<and> (chBuf (spawnWorkerCh (snd (SetWorkerSizeMaximum n self p))) = [1])
          = (workerCount p < workerSizeStandBy p \<or> tqItems (jobQueue p) \<noteq> [])
        \<and> (chBuf (spawnWorkerCh (snd (SetWorkerExpiryDuration d self p))) = [1])
          = (workerCount p < workerSizeStandBy p \<or> tqItems (jobQueue p) \<noteq> [])"
      using a 1
      by (simp add: SetWorkerBatchSize_def SetWorkerSizeStandBy_def SetWorkerSizeMaximum_def
            SetWorkerExpiryDuration_def notifyWorkers_signals)
  qed
  have nw: "notifyWorkers p =
       (if workerCount p < workerSizeStandBy p \<or> tqItems (jobQueue p) \<noteq> []
        then p\<lparr>spawnWorkerCh := snd (chOffer 1 (spawnWorkerCh p))\<rparr> else p)"
    by (simp add: notifyWorkers_def tqCount_def)
  have fl: "fst (SetJobQueue q self p) = self
   \<and> fst (SetIsJobQueueClosedWhenClose b self p) = self
   \<and> fst (SetPanicHandler h self p) = self
   \<and> fst (SetWorkerBatchSize n self p) = self
   \<and> fst (SetWorkerSizeStandBy n self p) = self
   \<and> fst (SetWorkerSizeMaximum n self p) = self
   \<and> fst (SetSpawnWorkerDuration d self p) = self
   \<and> fst (SetWorkerExpiryDuration d self p) = self"
    by (simp add: SetJobQueue_def SetIsJobQueueClosedWhenClose_def SetPanicHandler_def
          SetWorkerBatchSize_def SetWorkerSizeStandBy_def SetWorkerSizeMaximum_def
          SetSpawnWorkerDuration_def SetWorkerExpiryDuration_def)
  have st: "snd (SetJobQueue q self p) = p\<lparr>jobQueue := q\<rparr>
   \<and> snd (SetIsJobQueueClosedWhenClose b self p) = p\<lparr>isJobQueueClosedWhenClose := b\<rparr>
   \<and> snd (SetPanicHandler h self p) = p\<lparr>panicHandler := h\<rparr>
   \<and> snd (SetSpawnWorkerDuration d self p) = p\<lparr>spawnWorkerDuration := d\<rparr>
   \<and> snd (SetWorkerBatchSize n self p) = notifyWorkers (p\<lparr>workerBatchSize := n\<rparr>)
   \<and> snd (SetWorkerSizeStandBy n self p) = notifyWorkers (p\<lparr>workerSizeStandBy := n\<rparr>)
   \<and> snd (SetWorkerSizeMaximum n self p) = notifyWorkers (p\<lparr>workerSizeMaximum := n\<rparr>)
   \<and> snd (SetWorkerExpiryDuration d self p) = notifyWorkers (p\<lparr>workerExpiryDuration := d\<rparr>)"
    by (simp add: SetJobQueue_def SetIsJobQueueClosedWhenClose_def SetPanicHandler_def
          SetWorkerBatchSize_def SetWorkerSizeStandBy_def SetWorkerSizeMaximum_def
          SetSpawnWorkerDuration_def SetWorkerExpiryDuration_def)
  from fl st nw sig show ?thesis by blast
qed

text \<open>A fresh pool has no workers: lowering its standby size to 2 sends the signal.\<close>

theorem setters_fluent_and_notify_witness:
  "mailboxOk (NewDefaultWorkerPool (NewBufferedChannelQueue 10))
   \<and> chBuf (spawnWorkerCh (NewDefaultWorkerPool (NewBufferedChannelQueue 10))) = []
   \<and> fst (SetWorkerSizeStandBy 2 7 (NewDefaultWorkerPool (NewBufferedChannelQueue 10))) = 7
   \<and> chBuf (spawnWorkerCh (snd (SetWorkerSizeStandBy 2 7
         (NewDefaultWorkerPool (NewBufferedChannelQueue 10))))) = [1]"
proof -
  let ?p = "NewDefaultWorkerPool (NewBufferedChannelQueue 10)"
  have mb: "mailboxOk ?p" by code_simp
  have em: "chBuf (spawnWorkerCh ?p) = []" by code_simp
  have wc: "workerCount ?p = 0" by code_simp
  note T = setters_fluent_and_notify [of "NewBufferedChannelQueue 10" 7 ?p True None 2 0]
  from T have f: "fst (SetWorkerSizeStandBy 2 7 ?p) = 7" by blast
  from T mb em have "(chBuf (spawnWorkerCh (snd (SetWorkerSizeStandBy 2 7 ?p))) = [1])
          = (workerCount ?p < 2 \<or> tqItems (jobQueue ?p) \<noteq> [])" by blast
  then have "chBuf (spawnWorkerCh (snd (SetWorkerSizeStandBy 2 7 ?p))) = [1]"
    unfolding wc by simp
  with mb em f show ?thesis by blast
qed

section \<open>A fresh pool\<close>

lemma quiet_step:
  assumes "quiet a" "workers p = []" "workerCount p = 0" "chBuf (spawnWorkerCh p) = []"
  shows "workers (step a p) = [] \<and> workerCount (step a p) = 0
         \<and> chBuf (spawnWorkerCh (step a p)) = []"
  using assms
  by (cases a)
     (simp_all add: Close_def IsClosed_def Let_def SetJobQueue_def
        SetIsJobQueueClosedWhenClose_def SetPanicHandler_def SetSpawnWorkerDuration_def
        spawnLoopIter_def isActive_def)

lemma quiet_run:
  assumes "list_all quiet acts" "workers p = []" "workerCount p = 0"
    "chBuf (spawnWorkerCh p) = []"
  shows "workers (run acts p) = [] \<and> workerCount (run acts p) = 0"
  using assms unfolding run_def
proof (induction acts arbitrary: p)
  case Nil
  then show ?case by simp
next
  case (Cons a acts)
  from Cons.prems have "quiet a" "list_all quiet acts" by simp_all
  from quiet_step [OF \<open>quiet a\<close> Cons.prems(2-4)] Cons.IH [OF \<open>list_all quiet acts\<close>]
  show ?case by simp
qed

text \<open>
  C10. A pool just made by \<open>NewDefaultWorkerPool\<close> is open and holds the queue it was
  given; it closes that queue on \<open>Close\<close>, has batch size 5, standby size 5, maximum
  1000, a spawn interval of 100 ms, a worker expiry of 5000 ms, the default panic
  handler, an empty mailbox of capacity 1 and no workers. Its spawn loop is blocked on
  the mailbox, and as long as nothing signals the loop and \<open>PreAllocWorkerSize\<close> is
  not called, no worker is launched.
\<close>

theorem NewDefaultWorkerPool_defaults:
  "\<not> IsClosed (NewDefaultWorkerPool q)
   \<and> jobQueue (NewDefaultWorkerPool q) = q
   \<and> isJobQueueClosedWhenClose (NewDefaultWorkerPool q)
   \<and> workerBatchSize (NewDefaultWorkerPool q) = 5
   \<and> workerSizeStandBy (NewDefaultWorkerPool q) = 5
   \<and> workerSizeMaximum (NewDefaultWorkerPool q) = 1000
   \<and> spawnWorkerDuration (NewDefaultWorkerPool q) = 100 * Millisecond
   \<and> workerExpiryDuration (NewDefaultWorkerPool q) = 5000 * Millisecond
   \<and> panicHandler (NewDefaultWorkerPool q) = Some defaultPanicHandler
   \<and> chCap (spawnWorkerCh (NewDefaultWorkerPool q)) = 1
   \<and> chBuf (spawnWorkerCh (NewDefaultWorkerPool q)) = []
   \<and> workerCount (NewDefaultWorkerPool q) = 0
   \<and> workers (NewDefaultWorkerPool q) = []
   \<and> spawnLoopRunning (NewDefaultWorkerPool q)
   \<and> spawnLoopIter (NewDefaultWorkerPool q) = None
   \<and> (list_all quiet acts \<longrightarrow>
         workers (run acts (NewDefaultWorkerPool q)) = []
         \<and> workerCount (run acts (NewDefaultWorkerPool q)) = 0)"
proof -
  have fields: "\<not> IsClosed (NewDefaultWorkerPool q)
   \<and> jobQueue (NewDefaultWorkerPool q) = q
   \<and> isJobQueueClosedWhenClose (NewDefaultWorkerPool q)
   \<and> workerBatchSize (NewDefaultWorkerPool q) = 5
   \<and> workerSizeStandBy (NewDefaultWorkerPool q) = 5
   \<and> workerSizeMaximum (NewDefaultWorkerPool q) = 1000
   \<and> spawnWorkerDuration (NewDefaultWorkerPool q) = 100 * Millisecond
   \<and> workerExpiryDuration (NewDefaultWorkerPool q) = 5000 * Millisecond
   \<and> panicHandler (NewDefaultWorkerPool q) = Some defaultPanicHandler
   \<and> chCap (spawnWorkerCh (NewDefaultWorkerPool q)) = 1
   \<and> chBuf (spawnWorkerCh (NewDefaultWorkerPool q)) = []
   \<and> workerCount (NewDefaultWorkerPool q) = 0
   \<and> workers (NewDefaultWorkerPool q) = []
   \<and> spawnLoopRunning (NewDefaultWorkerPool q)"
    by (simp add: NewDefaultWorkerPool_def IsClosed_def NewChannelQueue_def)
  have blocked: "spawnLoopIter (NewDefaultWorkerPool q) = None"
    by (simp add: spawnLoopIter_def NewDefaultWorkerPool_def NewChannelQueue_def)
  have stays: "list_all quiet acts \<longrightarrow>
         workers (run acts (NewDefaultWorkerPool q)) = []
         \<and> workerCount (run acts (NewDefaultWorkerPool q)) = 0"
    using fields by (auto dest: quiet_run [where p = "NewDefaultWorkerPool q"])
  from fields blocked stays show ?thesis by blast
qed

text \<open>
  The spawn loop and a would-be worker take turns, time passes and the pool is closed:
  still no worker. In nanoseconds the two durations are 10^8 and 5 * 10^9.
\<close>

theorem NewDefaultWorkerPool_defaults_witness:
  "list_all quiet [SpawnLoopTurn, WorkerReceives 0, Tick, CallClose, SpawnLoopTurn]
   \<and> workers (run [SpawnLoopTurn, WorkerReceives 0, Tick, CallClose, SpawnLoopTurn]
        (NewDefaultWorkerPool (NewBufferedChannelQueue 10))) = []
   \<and> workerCount (run [SpawnLoopTurn, WorkerReceives 0, Tick, CallClose, SpawnLoopTurn]
        (NewDefaultWorkerPool (NewBufferedChannelQueue 10))) = 0
   \<and> spawnWorkerDuration (NewDefaultWorkerPool (NewBufferedChannelQueue 10)) = 100000000
   \<and> workerExpiryDuration (NewDefaultWorkerPool (NewBufferedChannelQueue 10)) = 5000000000"
proof -
  let ?acts = "[SpawnLoopTurn, WorkerReceives 0, Tick, CallClose, SpawnLoopTurn]"
  let ?q = "NewBufferedChannelQueue 10"
  have qu: "list_all quiet ?acts" by simp
  note T = NewDefaultWorkerPool_defaults [of ?q ?acts]
  from T qu have a: "workers (run ?acts (NewDefaultWorkerPool ?q)) = []"
    and b: "workerCount (run ?acts (NewDefaultWorkerPool ?q)) = 0" by blast+
  from T have "spawnWorkerDuration (NewDefaultWorkerPool ?q) = 100 * Millisecond"
    and "workerExpiryDuration (NewDefaultWorkerPool ?q) = 5000 * Millisecond" by blast+
  then have c: "spawnWorkerDuration (NewDefaultWorkerPool ?q) = 100000000"
    and d: "workerExpiryDuration (NewDefaultWorkerPool ?q) = 5000000000"
    by (simp_all add: Millisecond_def)
  from qu a b c d show ?thesis by blast
qed

end
